theory Spec2Isabelle
  imports Main "HOL-Library.Multiset" "HOL-Library.Char_ord" "HOL-Library.List_Lexorder"
begin

section \<open>JavaScript strings\<close>

text \<open>
  A JavaScript string is modelled as a \<^typ>\<open>string\<close>: one \<^typ>\<open>char\<close> per code unit, so the
  model covers the strings whose code units are below 256.  The string methods the scripts
  call are written out here with the meaning the language gives them.
\<close>

definition startsWith :: "string \<Rightarrow> string \<Rightarrow> bool" where
  "startsWith s p = (take (length p) s = p)"

definition endsWith :: "string \<Rightarrow> string \<Rightarrow> bool" where
  "endsWith s p = (length p \<le> length s \<and> drop (length s - length p) s = p)"

text \<open>\<open>String.prototype.includes\<close> (the name is a keyword of Isabelle, hence the suffix).\<close>

fun includes_str :: "string \<Rightarrow> string \<Rightarrow> bool" where
  "includes_str [] p = (p = [])"
| "includes_str (c # s) p = (startsWith (c # s) p \<or> includes_str s p)"

text \<open>
  \<open>path.basename\<close> of Node (POSIX flavour, one argument): trailing slashes are dropped, and
  what follows the last remaining slash is returned.
\<close>

definition basename :: "string \<Rightarrow> string" where
  "basename p =
     rev (takeWhile (\<lambda>c. c \<noteq> CHR ''/'') (dropWhile (\<lambda>c. c = CHR ''/'') (rev p)))"

text \<open>The character classes \<open>\w\<close> and \<open>\d\<close> of a regular expression without the unicode flag.\<close>

definition isDigit :: "char \<Rightarrow> bool" where
  "isDigit c = (c \<in> set ''0123456789'')"

definition isWordChar :: "char \<Rightarrow> bool" where
  "isWordChar c =
     (c \<in> set ''abcdefghijklmnopqrstuvwxyz'' \<or> c \<in> set ''ABCDEFGHIJKLMNOPQRSTUVWXYZ'' \<or> isDigit c
       \<or> c = CHR ''_'')"


section \<open>The internal link checker (check-links)\<close>

text \<open>The script is \<open>src/unnamed/part_008\<close>; line numbers are its lines.\<close>

record LinkError =
  file' :: string
  link :: string
  message :: string

text \<open>
  One match of \<open>/\[([^\]]+)\]\(([^)]+)\)/\<close> that starts at the head of the string: the
  second group and what is left of the string after the match.  Both character classes
  exclude the character that must follow them, so the greedy match is the only one.
\<close>

definition matchLink :: "string \<Rightarrow> (string \<times> string) option" where
  "matchLink s =
     (case s of
        [] \<Rightarrow> None
      | c # r \<Rightarrow>
          if c \<noteq> CHR ''['' then None
          else
            let label = takeWhile (\<lambda>x. x \<noteq> CHR '']'') r;
                r1 = dropWhile (\<lambda>x. x \<noteq> CHR '']'') r
            in if label = [] then None
               else (case r1 of
                       a # b # r2 \<Rightarrow>
                         if a = CHR '']'' \<and> b = CHR ''('' then
                           let target = takeWhile (\<lambda>x. x \<noteq> CHR '')'') r2;
                               r3 = dropWhile (\<lambda>x. x \<noteq> CHR '')'') r2
                           in if target = [] then None
                              else (case r3 of
                                      d # r4 \<Rightarrow> if d = CHR '')'' then Some (target, r4) else None
                                    | [] \<Rightarrow> None)
                         else None
                     | _ \<Rightarrow> None))"

lemma matchLink_shorter: "matchLink s = Some (t, rest) \<Longrightarrow> length rest < length s"
proof -
  assume m: "matchLink s = Some (t, rest)"
  have le: "\<And>P (xs::string). length (dropWhile P xs) \<le> length xs"
    by (simp add: length_dropWhile_le)
  from m obtain c r where s: "s = c # r"
    by (cases s) (auto simp: matchLink_def)
  from m s obtain a b r2 where r1: "dropWhile (\<lambda>x. x \<noteq> CHR '']'') r = a # b # r2"
    by (auto simp: matchLink_def Let_def split: if_splits list.splits)
  from m s r1 obtain d where r3: "dropWhile (\<lambda>x. x \<noteq> CHR '')'') r2 = d # rest"
    by (auto simp: matchLink_def Let_def split: if_splits list.splits)
  have "length rest < length (dropWhile (\<lambda>x. x \<noteq> CHR '')'') r2)"
    by (simp add: r3)
  also have "\<dots> \<le> length r2" by (rule le)
  also have "length r2 < length (dropWhile (\<lambda>x. x \<noteq> CHR '']'') r)"
    by (simp add: r1)
  also have "\<dots> \<le> length r" by (rule le)
  finally show ?thesis by (simp add: s)
qed

text \<open>
  \<open>extractLinks\<close>: the \<open>exec\<close> loop of a global regular expression.  After a match the search
  goes on behind it; where no match starts, it moves one character on.
\<close>

function extractLinks :: "string \<Rightarrow> string list" where
  "extractLinks [] = []"
| "extractLinks (c # r) =
     (case matchLink (c # r) of
        Some (target, rest) \<Rightarrow> target # extractLinks rest
      | None \<Rightarrow> extractLinks r)"
  by pat_completeness auto
termination
  by (relation "measure length") (auto dest: matchLink_shorter)

definition isInternalLink :: "string \<Rightarrow> bool" where
  "isInternalLink l = (\<not> startsWith l ''http://'' \<and> \<not> startsWith l ''https://'')"

text \<open>
  The anchor branch of the checker: \<open>link.match(/^#(\w+)/)\<close> gives the run of word
  characters behind the \<open>#\<close>, and \<open>link.match(/^\d+-\d+/)\<close> asks for digits, a dash and a
  digit at the head of the link.
\<close>

definition anchorMatch :: "string \<Rightarrow> string option" where
  "anchorMatch l =
     (case l of
        [] \<Rightarrow> None
      | c # r \<Rightarrow>
          if c = CHR ''#'' \<and> takeWhile isWordChar r \<noteq> [] then Some (takeWhile isWordChar r)
          else None)"

definition sectionNumberMatch :: "string \<Rightarrow> bool" where
  "sectionNumberMatch l =
     (takeWhile isDigit l \<noteq> [] \<and>
      (case dropWhile isDigit l of
         a # b # _ \<Rightarrow> a = CHR ''-'' \<and> isDigit b
       | _ \<Rightarrow> False))"

text \<open>
  The body of the loop over the links of one file (lines 63 to 92), as the errors it pushes
  for one link.  The anchor branch computes \<open>hasMatchingFile\<close> and then pushes nothing: its
  innermost block holds comments only.
\<close>

definition checkLink :: "string list \<Rightarrow> string \<Rightarrow> string \<Rightarrow> LinkError list" where
  "checkLink ruleFiles f l =
     (if isInternalLink l then
        (if endsWith l ''.md'' then
           (let referencedFile = basename l
            in if referencedFile \<notin> set ruleFiles then
                 [\<lparr>file' = f, link = l,
                   message = ''Referenced file does not exist: '' @ referencedFile\<rparr>]
               else [])
         else if startsWith l ''#'' then
           (case anchorMatch l of
              Some pre \<Rightarrow>
                (let hasMatchingFile = list_ex (\<lambda>g. startsWith g pre) ruleFiles
                 in if \<not> hasMatchingFile \<and> \<not> sectionNumberMatch l then [] else [])
            | None \<Rightarrow> [])
         else [])
      else [])"

definition checkFile :: "string list \<Rightarrow> string \<Rightarrow> string \<Rightarrow> LinkError list" where
  "checkFile ruleFiles f content = concat (map (checkLink ruleFiles f) (extractLinks content))"

text \<open>
  The file system as the script sees it: \<open>readdir\<close> of the rules directory and \<open>readFile\<close>
  of a file of that directory, each \<open>None\<close> when the call throws.
\<close>

record rules_fs =
  readdir :: "string list option"
  readFile :: "string \<Rightarrow> string option"

fun checkFiles :: "rules_fs \<Rightarrow> string list \<Rightarrow> string list \<Rightarrow> LinkError list option" where
  "checkFiles fs ruleFiles [] = Some []"
| "checkFiles fs ruleFiles (f # rest) =
     (case readFile fs f of
        None \<Rightarrow> None
      | Some content \<Rightarrow>
          (case checkFiles fs ruleFiles rest of
             None \<Rightarrow> None
           | Some errs \<Rightarrow> Some (checkFile ruleFiles f content @ errs)))"

text \<open>
  \<open>allErrors\<close> as it stands at line 95; \<open>None\<close> when a call threw before.  The set
  \<open>availableFiles\<close> of line 51 is built and never read, so it is left out.
\<close>

definition allErrors :: "rules_fs \<Rightarrow> LinkError list option" where
  "allErrors fs =
     (case readdir fs of
        None \<Rightarrow> None
      | Some files \<Rightarrow>
          (let ruleFiles = filter (\<lambda>f. endsWith f ''.md'') files
           in checkFiles fs ruleFiles ruleFiles))"

datatype console = Log string | Warn string | Error string

fun printLinkError :: "LinkError \<Rightarrow> console list" where
  "printLinkError e =
     [Error (''  '' @ file' e), Error (''    Link: '' @ link e), Error (''    '' @ message e),
      Error '''']"

text \<open>
  \<open>checkLinks\<close>: what is printed and the exit status of the process (0 when the function
  returns).  The status glyphs that open some console messages are left out of the strings,
  and so is the line that prints \<open>RULES_DIR\<close>, whose value is configuration.
\<close>

definition checkLinks :: "rules_fs \<Rightarrow> console list \<times> nat" where
  "checkLinks fs =
     (let intro = [Log ''Checking internal links in rule files...'']
      in case allErrors fs of
           None \<Rightarrow> (intro @ [Error ''Link checking failed:''], 1)
         | Some errs \<Rightarrow>
             if length errs > 0 then
               (intro @ [Error ''Link checking failed:''] @ concat (map printLinkError errs), 1)
             else (intro @ [Log ''All internal links are valid''], 0))"


section \<open>The external link checker (check-external-links)\<close>

text \<open>The script is \<open>src/unnamed/part_009\<close>; line numbers are its lines.\<close>

text \<open>\<open>source: { skill, file }\<close>; \<open>file\<close> is a keyword of Isabelle, hence the primes.\<close>

record link_source =
  skill :: string
  file'' :: string

record LinkCheckResult =
  url :: string
  success :: bool
  statusCode :: "nat option"
  error :: "string option"
  source :: link_source
  retriesUsed :: nat

definition TIMEOUT_MS :: nat where
  "TIMEOUT_MS = 10000"

definition MAX_RETRIES :: nat where
  "MAX_RETRIES = 2"

definition CONCURRENCY :: nat where
  "CONCURRENCY = 5"

definition RETRY_DELAYS :: "nat list" where
  "RETRY_DELAYS = [100, 200, 400]"

text \<open>
  What \<open>fetch\<close> gives back: a response, of which the script reads \<open>status\<close>, \<open>statusText\<close>
  and \<open>ok\<close>, or a rejection with an error object, of which it reads \<open>name\<close>, \<open>code\<close> and
  \<open>message\<close>.  By the Fetch standard \<open>ok\<close> holds exactly for a status from 200 to 299.
\<close>

record response =
  status :: nat
  statusText :: string

definition ok :: "response \<Rightarrow> bool" where
  "ok r = (200 \<le> status r \<and> status r \<le> 299)"

record js_error =
  name :: string
  code :: "string option"
  message' :: "string option"

datatype fetch_result = Response response | Rejected js_error

datatype http_method = HEAD | GET

text \<open>
  The network is an oracle: the outcome of the request with the given method in the
  attempt with the given number.  An attempt issues each method at most once.  The abort
  timer of an attempt is part of the oracle: a request cut off by it is rejected with an
  error named \<open>AbortError\<close>.
\<close>

type_synonym network = "nat \<Rightarrow> http_method \<Rightarrow> fetch_result"

text \<open>
  What a run does, in order: \<open>Sleep ms\<close> is a call of \<open>sleep(ms)\<close>, which waits at least
  \<open>ms\<close> milliseconds, and \<open>Fetch m\<close> a request with method \<open>m\<close>.
\<close>

datatype net_event = Sleep nat | Fetch http_method

text \<open>The decimal digits of a number, as a template literal prints them.\<close>

definition digitChar :: "nat \<Rightarrow> char" where
  "digitChar d = ''0123456789'' ! d"

fun string_of_nat :: "nat \<Rightarrow> string" where
  "string_of_nat n =
     (if n < 10 then [digitChar n] else string_of_nat (n div 10) @ [digitChar (n mod 10)])"

text \<open>The \<open>catch\<close> block of an attempt (lines 176 to 186): the text kept in \<open>lastError\<close>.\<close>

definition errorText :: "js_error \<Rightarrow> string" where
  "errorText e =
     (if name e = ''AbortError'' then ''Request timeout''
      else if code e = Some ''ENOTFOUND'' then ''DNS lookup failed''
      else if code e = Some ''ECONNREFUSED'' then ''Connection refused''
      else (case message' e of
              Some m \<Rightarrow> if m \<noteq> [] then m else ''Unknown error''
            | None \<Rightarrow> ''Unknown error''))"

text \<open>
  One pass through the \<open>try\<close> block of the loop (lines 110 to 186): the requests it issues,
  and either the result it returns or the values of \<open>lastError\<close> and \<open>lastStatusCode\<close> it
  leaves for the next pass.
\<close>

datatype attempt_outcome = Return LinkCheckResult | Next string "nat option"

definition succeeded :: "string \<Rightarrow> link_source \<Rightarrow> nat \<Rightarrow> nat \<Rightarrow> LinkCheckResult" where
  "succeeded u src st retries =
     \<lparr>url = u, success = True, statusCode = Some st, error = None, source = src,
      retriesUsed = retries\<rparr>"

definition attempt_body ::
  "network \<Rightarrow> string \<Rightarrow> link_source \<Rightarrow> nat \<Rightarrow> string \<Rightarrow> nat option \<Rightarrow> nat
     \<Rightarrow> net_event list \<times> attempt_outcome" where
  "attempt_body net u src attempt lastError lastStatusCode retries =
     (case net attempt HEAD of
        Rejected e \<Rightarrow> ([Fetch HEAD], Next (errorText e) lastStatusCode)
      | Response r \<Rightarrow>
          if \<not> ok r then
            (case net attempt GET of
               Rejected e \<Rightarrow> ([Fetch HEAD, Fetch GET], Next (errorText e) lastStatusCode)
             | Response g \<Rightarrow>
                 if ok g then ([Fetch HEAD, Fetch GET], Return (succeeded u src (status g) retries))
                 else if 200 \<le> status g \<and> status g < 300 then
                   ([Fetch HEAD, Fetch GET], Return (succeeded u src (status g) retries))
                 else
                   ([Fetch HEAD, Fetch GET],
                    Next (string_of_nat (status g) @ '' '' @ statusText g) (Some (status g))))
          else ([Fetch HEAD], Return (succeeded u src (status r) retries)))"

text \<open>
  The \<open>for\<close> loop of \<open>validateUrl\<close>, from the pass with number \<open>attempt\<close> on, with the local
  variables \<open>lastError\<close>, \<open>lastStatusCode\<close> and \<open>retriesUsed\<close> as arguments.  It gives the
  result and the sleeps and requests made on the way.  \<open>maxRetries\<close> is a count: the only
  caller passes the default, \<open>MAX_RETRIES\<close>.
\<close>

function validateUrl_loop ::
  "network \<Rightarrow> string \<Rightarrow> link_source \<Rightarrow> nat \<Rightarrow> nat \<Rightarrow> string \<Rightarrow> nat option \<Rightarrow> nat
     \<Rightarrow> LinkCheckResult \<times> net_event list" where
  "validateUrl_loop net u src maxRetries attempt lastError lastStatusCode retries =
     (if attempt \<le> maxRetries then
        (let waited =
               (if attempt > 0
                then [Sleep (RETRY_DELAYS ! (min (attempt - 1) (length RETRY_DELAYS - 1)))]
                else []);
             retries1 = (if attempt > 0 then retries + 1 else retries)
         in case attempt_body net u src attempt lastError lastStatusCode retries1 of
              (evs, Return res) \<Rightarrow> (res, waited @ evs)
            | (evs, Next err st) \<Rightarrow>
                (case validateUrl_loop net u src maxRetries (attempt + 1) err st retries1 of
                   (res, later) \<Rightarrow> (res, waited @ evs @ later)))
      else
        (\<lparr>url = u, success = False, statusCode = lastStatusCode, error = Some lastError,
          source = src, retriesUsed = retries\<rparr>, []))"
  by pat_completeness auto
termination
  by (relation "measure (\<lambda>(net, u, src, maxRetries, attempt, _). Suc maxRetries - attempt)") auto

declare validateUrl_loop.simps [simp del]

text \<open>
  \<open>validateUrl\<close>.  \<open>timeout\<close> sets the abort timer of each attempt; what the timer does is
  in the network oracle, so the argument is not read here.
\<close>

definition validateUrl ::
  "network \<Rightarrow> string \<Rightarrow> link_source \<Rightarrow> nat \<Rightarrow> nat \<Rightarrow> LinkCheckResult \<times> net_event list" where
  "validateUrl net u src timeout maxRetries = validateUrl_loop net u src maxRetries 0 '''' None 0"


section \<open>The SQL validator (validate-sql)\<close>

text \<open>
  Two versions of the script are among the sources.  \<open>src/unnamed/part_010\<close> checks a
  deny-list before it runs the engine and runs it with restrictive flags;
  \<open>src/packages/clickhouse-best-practices-build/src/validate-sql.ts\<close> does neither.  The
  rest of the two files is the same.  Line numbers are those of \<open>part_010\<close> unless the
  other file is named.
\<close>

subsection \<open>The deny-list\<close>

text \<open>
  The class \<open>\s\<close> on code units below 256: tab, line feed, vertical tab, form feed,
  carriage return, space and the no-break space.
\<close>

definition isSpace :: "char \<Rightarrow> bool" where
  "isSpace c =
     (c \<in> set [CHR 0x09, CHR 0x0A, CHR 0x0B, CHR 0x0C, CHR 0x0D, CHR 0x20, CHR 0xA0])"

text \<open>
  \<open>sql.replace(/\/\*[\s\S]*?\*\//g, ' ')\<close>.  \<open>closeBlock\<close> gives what follows the first
  \<open>*/\<close> of a string.  At \<open>/*\<close> the lazy match runs to the first \<open>*/\<close> behind the opener; the
  match becomes one space and the scan goes on behind it.  Where there is no such match
  the character is kept.
\<close>

fun closeBlock :: "string \<Rightarrow> string option" where
  "closeBlock (a # b # r) = (if a = CHR ''*'' \<and> b = CHR ''/'' then Some r else closeBlock (b # r))"
| "closeBlock _ = None"

lemma closeBlock_shorter: "closeBlock s = Some r \<Longrightarrow> length r < length s"
  by (induction s rule: closeBlock.induct) (auto split: if_splits)

definition blockCommentAt :: "string \<Rightarrow> string option" where
  "blockCommentAt s =
     (case s of
        a # b # r \<Rightarrow> if a = CHR ''/'' \<and> b = CHR ''*'' then closeBlock r else None
      | _ \<Rightarrow> None)"

lemma blockCommentAt_shorter: "blockCommentAt s = Some r \<Longrightarrow> length r < length s"
  by (auto simp: blockCommentAt_def split: list.splits if_splits dest: closeBlock_shorter)

function removeBlockComments :: "string \<Rightarrow> string" where
  "removeBlockComments [] = []"
| "removeBlockComments (c # r) =
     (case blockCommentAt (c # r) of
        Some rest \<Rightarrow> CHR '' '' # removeBlockComments rest
      | None \<Rightarrow> c # removeBlockComments r)"
  by pat_completeness auto
termination
  by (relation "measure length") (auto dest: blockCommentAt_shorter)

text \<open>
  \<open>.replace(/--[^\n]*/g, ' ')\<close>: from \<open>--\<close> up to, and without, the next line feed.
\<close>

function removeLineComments :: "string \<Rightarrow> string" where
  "removeLineComments [] = []"
| "removeLineComments (c # r) =
     (if c = CHR ''-'' \<and> startsWith r ''-'' then
        CHR '' '' # removeLineComments (dropWhile (\<lambda>x. x \<noteq> CHR 0x0A) (tl r))
      else c # removeLineComments r)"
  by pat_completeness auto
termination
proof (relation "measure length")
  fix c :: char and r :: string
  have "length (dropWhile (\<lambda>x. x \<noteq> CHR 0x0A) (tl r)) \<le> length (tl r)"
    by (rule length_dropWhile_le)
  then show "(dropWhile (\<lambda>x. x \<noteq> CHR 0x0A) (tl r), c # r) \<in> measure length"
    by simp
qed simp_all

text \<open>\<open>.replace(/\s+/g, ' ')\<close>: every maximal run of white space becomes one space.\<close>

function normalizeWhitespace :: "string \<Rightarrow> string" where
  "normalizeWhitespace [] = []"
| "normalizeWhitespace (c # r) =
     (if isSpace c then CHR '' '' # normalizeWhitespace (dropWhile isSpace r)
      else c # normalizeWhitespace r)"
  by pat_completeness auto
termination
proof (relation "measure length")
  fix c :: char and r :: string
  have "length (dropWhile isSpace r) \<le> length r"
    by (rule length_dropWhile_le)
  then show "(dropWhile isSpace r, c # r) \<in> measure length"
    by simp
qed simp_all

definition sqlNoComments :: "string \<Rightarrow> string" where
  "sqlNoComments sql = normalizeWhitespace (removeLineComments (removeBlockComments sql))"

text \<open>
  A pattern \<open>/\bNAME\s*\(/i\<close>.  With the flag \<open>i\<close> and no unicode flag two code units match
  when their upper-case forms agree, and a code unit from 128 on never takes the form of
  an ASCII letter; the names are ASCII, so comparing ASCII upper-case forms is exact.
  \<open>matchName\<close> reads the name at the head of the string, \<open>callAt\<close> the name, white space and
  the parenthesis.  \<open>testCall\<close> is \<open>pattern.test\<close>: a match at any position where \<open>\b\<close> holds,
  that is, where the code unit before (none at the start) and the one at the position
  differ in being word characters.
\<close>

definition upperAscii :: "char \<Rightarrow> char" where
  "upperAscii c =
     (case map_of (zip ''abcdefghijklmnopqrstuvwxyz'' ''ABCDEFGHIJKLMNOPQRSTUVWXYZ'') c of
        Some u \<Rightarrow> u
      | None \<Rightarrow> c)"

fun matchName :: "string \<Rightarrow> string \<Rightarrow> string option" where
  "matchName [] s = Some s"
| "matchName (p # ps) [] = None"
| "matchName (p # ps) (c # s) =
     (if upperAscii c = upperAscii p then matchName ps s else None)"

definition callAt :: "string \<Rightarrow> string \<Rightarrow> bool" where
  "callAt nm s =
     (case matchName nm s of
        None \<Rightarrow> False
      | Some rest \<Rightarrow> startsWith (dropWhile isSpace rest) ''('')"

fun testCall :: "string \<Rightarrow> bool \<Rightarrow> string \<Rightarrow> bool" where
  "testCall nm prevWord [] = False"
| "testCall nm prevWord (c # s) =
     ((prevWord \<noteq> isWordChar c \<and> callAt nm (c # s)) \<or> testCall nm (isWordChar c) s)"

text \<open>The list \<open>dangerous\<close>: the name of each pattern and its description.\<close>

definition dangerous :: "(string \<times> string) list" where
  "dangerous =
     [(''file'', ''file() table function (file system access)''),
      (''url'', ''url() table function (HTTP access)''),
      (''s3'', ''s3() table function (cloud storage access)''),
      (''mysql'', ''mysql() table function (database access)''),
      (''postgresql'', ''postgresql() table function (database access)''),
      (''mongodb'', ''mongodb() table function (database access)''),
      (''hdfs'', ''hdfs() table function (HDFS access)''),
      (''odbc'', ''odbc() table function (ODBC access)''),
      (''jdbc'', ''jdbc() table function (JDBC access)''),
      (''executable'', ''executable() table function (command execution)''),
      (''remote'', ''remote() table function (remote server access)''),
      (''cluster'', ''cluster() table function (cluster access)''),
      (''input'', ''input() table function (stdin access)''),
      (''sleep'', ''sleep() function (timing attack vector)''),
      (''throwIf'', ''throwIf() function (error-based exfiltration)'')]"

definition containsDangerousPatterns :: "string \<Rightarrow> string option" where
  "containsDangerousPatterns sql =
     (case find (\<lambda>(nm, description). testCall nm False (sqlNoComments sql)) dangerous of
        Some (nm, description) \<Rightarrow>
          Some (''Security: SQL contains dangerous pattern: '' @ description)
      | None \<Rightarrow> None)"


subsection \<open>Validating one snippet\<close>

text \<open>
  The world around the script.  \<open>execAsync\<close> runs a shell command and either resolves with
  what the command wrote to its two streams or rejects with an error, of which the script
  reads the message.  \<open>writeFile\<close>, \<open>stat\<close>, \<open>mkdir\<close> and \<open>chmod\<close> succeed or throw;
  \<open>readdir\<close> of the rules directory and \<open>parseRuleFile\<close> give a value or throw (\<open>None\<close>).
  \<open>clock n\<close> is what \<open>Date.now()\<close> returns in the call of \<open>validateSQL\<close> for the SQL example
  with number \<open>n\<close>.  \<open>CLICKHOUSE_DIR\<close>, \<open>tmpdir\<close> and the platform are given; paths are
  joined with a slash.
\<close>

datatype exec_result = Resolved string string | Rejected' string

record example =
  label :: string
  language :: "string option"
  code' :: string

record rule =
  title :: string
  examples :: "example list"

record host =
  CLICKHOUSE_DIR :: string
  tmpdir :: string
  platform :: string
  clock :: "nat \<Rightarrow> nat"
  statBinary :: bool
  mkdirBin :: bool
  chmodBinary :: bool
  writeFile :: "string \<Rightarrow> string \<Rightarrow> bool"
  execAsync :: "string \<Rightarrow> exec_result"
  readdirRules :: "string list option"
  parseRuleFile :: "string \<Rightarrow> rule option"

definition CLICKHOUSE_VERSION :: string where
  "CLICKHOUSE_VERSION = ''24.1.8.22''"

definition CLICKHOUSE_BINARY :: "host \<Rightarrow> string" where
  "CLICKHOUSE_BINARY h = CLICKHOUSE_DIR h @ ''/clickhouse''"

text \<open>What a run does to the world, in order.\<close>

datatype effect =
    Print console
  | Stat string
  | Mkdir string
  | Chmod string
  | WriteFile string string
  | Exec string
  | Readdir
  | Parse string

text \<open>
  The truth value of a \<open>string | null\<close> in a condition: a string that is not empty.
  \<open>trim\<close> drops white space at both ends.
\<close>

definition truthy :: "string option \<Rightarrow> bool" where
  "truthy v = (case v of None \<Rightarrow> False | Some s \<Rightarrow> s \<noteq> [])"

definition trim :: "string \<Rightarrow> string" where
  "trim s = rev (dropWhile isSpace (rev (dropWhile isSpace s)))"

definition tmpFileName :: "host \<Rightarrow> nat \<Rightarrow> string" where
  "tmpFileName h now = tmpdir h @ ''/clickhouse-validate-'' @ string_of_nat now @ ''.sql''"

text \<open>The command line of the engine, as lines 164 to 170 build it.\<close>

definition engineCommand :: "string \<Rightarrow> string \<Rightarrow> string" where
  \<open>engineCommand binary tmpFile =
     ''"'' @ binary @ ''" local --query-file "'' @ tmpFile @ ''" --output-format Null '' @
     ''--readonly=2 --allow_introspection_functions=0 --allow_ddl=0 '' @
     ''--max_execution_time=10 --max_memory_usage=100000000 --max_rows_to_read=1000000 '' @
     ''--user_files_path="/dev/null" --format_schema_path="/dev/null" '' @
     ''2>&1 || true''\<close>

definition cleanupCommand :: "string \<Rightarrow> string" where
  \<open>cleanupCommand tmpFile = ''rm -f "'' @ tmpFile @ ''"''\<close>

text \<open>
  What \<open>validateSQL\<close> returns once the command has run (lines 172 to 182): the trimmed
  error stream when it holds \<open>Exception\<close> or \<open>Error\<close>, the message when the call was
  rejected, \<open>null\<close> otherwise.
\<close>

definition engineVerdict :: "exec_result \<Rightarrow> string option" where
  "engineVerdict r =
     (case r of
        Rejected' msg \<Rightarrow> Some msg
      | Resolved out err \<Rightarrow>
          if err \<noteq> [] \<and> (includes_str err ''Exception'' \<or> includes_str err ''Error'')
          then Some (trim err) else None)"

text \<open>
  \<open>validateSQL\<close> of \<open>part_010\<close> (lines 141 to 189): the effects of the call, and
  \<open>Inr\<close> of the value the promise resolves with, or \<open>Inl\<close> when \<open>writeFile\<close> throws and the
  promise is rejected.
\<close>

definition validateSQL :: "host \<Rightarrow> nat \<Rightarrow> string \<Rightarrow> effect list \<times> (unit + string option)" where
  "validateSQL h now sql =
     (let dangerousPattern = containsDangerousPatterns sql
      in if truthy dangerousPattern then ([], Inr dangerousPattern)
         else
           (let tmpFile = tmpFileName h now
            in if \<not> writeFile h tmpFile sql then ([WriteFile tmpFile sql], Inl ())
               else
                 (let cmd = engineCommand (CLICKHOUSE_BINARY h) tmpFile
                  in ([WriteFile tmpFile sql, Exec cmd, Exec (cleanupCommand tmpFile)],
                      Inr (engineVerdict (execAsync h cmd))))))"

text \<open>
  \<open>validateSQL\<close> of \<open>src/packages/clickhouse-best-practices-build/src/validate-sql.ts\<close>
  (lines 93 to 122): no deny-list, and the command line of lines 101 to 103.
\<close>

definition packageCommand :: "string \<Rightarrow> string \<Rightarrow> string" where
  \<open>packageCommand binary tmpFile =
     ''"'' @ binary @ ''" local --query "$(cat "'' @ tmpFile @ ''")" --output-format Null '' @
     ''2>&1 || true''\<close>

definition validateSQL_package ::
  "host \<Rightarrow> nat \<Rightarrow> string \<Rightarrow> effect list \<times> (unit + string option)" where
  "validateSQL_package h now sql =
     (let tmpFile = tmpFileName h now
      in if \<not> writeFile h tmpFile sql then ([WriteFile tmpFile sql], Inl ())
         else
           (let cmd = packageCommand (CLICKHOUSE_BINARY h) tmpFile
            in ([WriteFile tmpFile sql, Exec cmd, Exec (cleanupCommand tmpFile)],
                Inr (engineVerdict (execAsync h cmd)))))"

subsection \<open>Acquiring the engine\<close>

datatype os = macos | linux | unsupported

definition getPlatform :: "host \<Rightarrow> os" where
  "getPlatform h =
     (if platform h = ''darwin'' then macos
      else if platform h = ''linux'' then linux
      else unsupported)"

definition getDownloadUrl :: "host \<Rightarrow> string option" where
  "getDownloadUrl h =
     (case getPlatform h of
        macos \<Rightarrow>
          Some (''https://github.com/ClickHouse/ClickHouse/releases/download/v'' @
                CLICKHOUSE_VERSION @ ''/clickhouse-macos'')
      | linux \<Rightarrow>
          Some (''https://github.com/ClickHouse/ClickHouse/releases/download/v'' @
                CLICKHOUSE_VERSION @ ''/clickhouse'')
      | unsupported \<Rightarrow> None)"

definition curlCommand :: "string \<Rightarrow> string \<Rightarrow> string" where
  \<open>curlCommand binary u = ''curl -L -o "'' @ binary @ ''" "'' @ u @ ''"''\<close>

text \<open>
  \<open>ensureClickHouse\<close> (lines 55 to 88): the effects and the boolean returned.  The three
  calls of the inner \<open>try\<close> block run in order, and the first that throws ends it.
\<close>

definition ensureClickHouse :: "host \<Rightarrow> effect list \<times> bool" where
  "ensureClickHouse h =
     (let binary = CLICKHOUSE_BINARY h
      in if statBinary h then
           ([Stat binary, Print (Log ''ClickHouse binary found'')], True)
         else
           (let looking = [Stat binary, Print (Log ''Downloading ClickHouse binary...'')]
            in case getDownloadUrl h of
                 None \<Rightarrow>
                   (looking @
                    [Print (Error ''Unsupported platform. SQL validation requires macOS or Linux.'')],
                    False)
               | Some u \<Rightarrow>
                   (let failed = Print (Error ''Failed to download ClickHouse binary:'');
                        mk = Mkdir (CLICKHOUSE_DIR h);
                        dl = Exec (curlCommand binary u)
                    in if \<not> mkdirBin h then (looking @ [mk, failed], False)
                       else (case execAsync h (curlCommand binary u) of
                               Rejected' msg \<Rightarrow> (looking @ [mk, dl, failed], False)
                             | Resolved out err \<Rightarrow>
                                 if \<not> chmodBinary h then
                                   (looking @ [mk, dl, Chmod binary, failed], False)
                                 else
                                   (looking @
                                    [mk, dl, Chmod binary,
                                     Print (Log ''ClickHouse binary downloaded'')],
                                    True)))))"


subsection \<open>The run over the rule files\<close>

text \<open>
  An entry of \<open>allErrors\<close>: the fields \<open>file\<close>, \<open>ruleTitle\<close>, \<open>exampleLabel\<close>, \<open>error\<close> and
  \<open>sql\<close> of \<open>SQLValidationError\<close> (three of the names are taken).
\<close>

record SQLValidationError =
  errFile :: string
  ruleTitle :: string
  exampleLabel :: string
  errText :: string
  sqlExcerpt :: string

text \<open>The condition of line 220: the examples that are validated.\<close>

definition isSqlExample :: "example \<Rightarrow> bool" where
  "isSqlExample ex =
     (code' ex \<noteq> [] \<and> trim (code' ex) \<noteq> [] \<and>
      (language ex = Some ''sql'' \<or> \<not> truthy (language ex)))"

definition excerpt :: "string \<Rightarrow> string" where
  "excerpt c = take 100 c @ (if length c > 100 then ''...'' else [])"

type_synonym validator = "host \<Rightarrow> nat \<Rightarrow> string \<Rightarrow> effect list \<times> (unit + string option)"

text \<open>
  The loop over the examples of one rule (lines 219 to 234), from the count
  \<open>totalSQLExamples = n\<close>: the effects, the errors pushed, the count afterwards, and whether
  the loop ran to its end (it does not when \<open>validateSQL\<close> rejects).
\<close>

fun validateExamples ::
  "validator \<Rightarrow> host \<Rightarrow> string \<Rightarrow> string \<Rightarrow> example list \<Rightarrow> nat
     \<Rightarrow> effect list \<times> SQLValidationError list \<times> nat \<times> bool" where
  "validateExamples v h f t [] n = ([], [], n, True)"
| "validateExamples v h f t (ex # exs) n =
     (if isSqlExample ex then
        (case v h (clock h (Suc n)) (code' ex) of
           (effs, Inl _) \<Rightarrow> (effs, [], Suc n, False)
         | (effs, Inr err) \<Rightarrow>
             (case validateExamples v h f t exs (Suc n) of
                (later, errs, n', finished) \<Rightarrow>
                  (effs @ later,
                   (if truthy err then
                      [\<lparr>errFile = f, ruleTitle = t, exampleLabel = label ex,
                        errText = the err, sqlExcerpt = excerpt (code' ex)\<rparr>]
                    else []) @ errs,
                   n', finished)))
      else validateExamples v h f t exs n)"

text \<open>The loop over the rule files (lines 213 to 238).\<close>

fun validateFiles ::
  "validator \<Rightarrow> host \<Rightarrow> string list \<Rightarrow> nat \<Rightarrow> effect list \<times> SQLValidationError list \<times> nat" where
  "validateFiles v h [] n = ([], [], n)"
| "validateFiles v h (f # fs) n =
     (case parseRuleFile h f of
        None \<Rightarrow>
          (case validateFiles v h fs n of
             (later, errs, n') \<Rightarrow>
               (Parse f # Print (Error (''Error processing '' @ f @ '':'')) # later, errs, n'))
      | Some r \<Rightarrow>
          (case validateExamples v h f (title r) (examples r) n of
             (effs, errs1, n1, finished) \<Rightarrow>
               (case validateFiles v h fs n1 of
                  (later, errs2, n2) \<Rightarrow>
                    (Parse f # effs @
                     (if finished then [] else [Print (Error (''Error processing '' @ f @ '':''))]) @
                     later,
                     errs1 @ errs2, n2))))"

fun printSqlError :: "SQLValidationError \<Rightarrow> effect list" where
  "printSqlError e =
     [Print (Error (''  '' @ errFile e @ '' ('' @ ruleTitle e @ '')'')),
      Print (Error (''    Example: '' @ exampleLabel e)),
      Print (Error (''    SQL: '' @ sqlExcerpt e)),
      Print (Error (''    Error: '' @ errText e)),
      Print (Error '''')]"

text \<open>
  \<open>validateSQLInRules\<close> (lines 194 to 257) over a given \<open>validateSQL\<close>: the effects of the run
  and the exit status of the process, 0 when the function returns.  \<open>process.exit\<close> ends
  the process at once.  The line that prints \<open>RULES_DIR\<close> is left out, as are the status
  glyphs of the messages.
\<close>

definition validateSQLInRules_with :: "validator \<Rightarrow> host \<Rightarrow> effect list \<times> nat" where
  "validateSQLInRules_with v h =
     (let intro = [Print (Log ''Validating SQL syntax in rule files...'')]
      in case ensureClickHouse h of
           (acquiring, hasClickHouse) \<Rightarrow>
             if \<not> hasClickHouse then
               (intro @ acquiring @
                [Print (Warn ''Skipping SQL validation (ClickHouse binary not available)'')],
                0)
             else
               (case readdirRules h of
                  None \<Rightarrow>
                    (intro @ acquiring @ [Readdir, Print (Error ''SQL validation failed:'')], 1)
                | Some files \<Rightarrow>
                    (let ruleFiles =
                           filter (\<lambda>f. endsWith f ''.md'' \<and> \<not> startsWith f ''_'' \<and>
                                        f \<noteq> ''README.md'') files
                     in case validateFiles v h ruleFiles 0 of
                          (effs, errs, totalSQLExamples) \<Rightarrow>
                            if length errs > 0 then
                              (intro @ acquiring @ Readdir # effs @
                               Print (Error ''SQL validation failed:'') #
                               concat (map printSqlError errs),
                               1)
                            else
                              (intro @ acquiring @ Readdir # effs @
                               [Print (Log (''All '' @ string_of_nat totalSQLExamples @
                                            '' SQL examples are valid''))],
                               0))))"

definition validateSQLInRules :: "host \<Rightarrow> effect list \<times> nat" where
  "validateSQLInRules = validateSQLInRules_with validateSQL"

definition validateSQLInRules_package :: "host \<Rightarrow> effect list \<times> nat" where
  "validateSQLInRules_package = validateSQLInRules_with validateSQL_package"


section \<open>The compiler\<close>

text \<open>
  Modelled from the spec: the rule record of the data model.  The parser that builds it is
  not among the source files; the SQL validator reads \<open>title\<close> and \<open>examples\<close> of it, and
  the remaining fields are those the specification lists.
\<close>

record full_rule = rule +
  impact :: string
  impactDescription :: "string option"
  tags :: "string list"
  explanation :: string
  reference :: "string option"

text \<open>
  Modelled from the spec: a section of the metadata file, with its display name, filename
  prefix, impact level, description and ordering rank.
\<close>

record rule_section =
  sectionName :: string
  sectionPrefix :: string
  sectionImpact :: string
  description :: string
  rank :: nat

text \<open>
  Modelled from the spec: the metadata (version, organisation, abstract), with a semantic
  version of three numbers.
\<close>

record metadata =
  version :: "nat \<times> nat \<times> nat"
  organization :: string
  abstractText :: string

text \<open>
  Modelled from the spec: what a build reads.  \<open>ruleFiles\<close> is the listing of the rules
  directory, each file name with the rule parsed from it, in the order in which the
  directory happens to be enumerated.
\<close>

record repository =
  meta :: metadata
  sections :: "rule_section list"
  ruleFiles :: "(string \<times> full_rule) list"

text \<open>Modelled from the spec: the version as text, and the patch-level bump.\<close>

definition versionText :: "nat \<times> nat \<times> nat \<Rightarrow> string" where
  "versionText v =
     (case v of (major, minor, patch) \<Rightarrow>
        string_of_nat major @ ''.'' @ string_of_nat minor @ ''.'' @ string_of_nat patch)"

definition bumpPatch :: "nat \<times> nat \<times> nat \<Rightarrow> nat \<times> nat \<times> nat" where
  "bumpPatch v = (case v of (major, minor, patch) \<Rightarrow> (major, minor, Suc patch))"

text \<open>
  Modelled from the spec: sections are ordered by declared rank, rules by file name; a
  rule belongs to a section when its file name starts with the section's prefix, and a
  rule that belongs to none is an orphan.
\<close>

definition orderedSections :: "rule_section list \<Rightarrow> rule_section list" where
  "orderedSections ss = sort_key rank ss"

definition orderedRules :: "(string \<times> full_rule) list \<Rightarrow> (string \<times> full_rule) list" where
  "orderedRules fs = sort_key fst fs"

definition rulesOf :: "rule_section \<Rightarrow> (string \<times> full_rule) list \<Rightarrow> (string \<times> full_rule) list" where
  "rulesOf s fs = filter (\<lambda>(f, r). startsWith f (sectionPrefix s)) fs"

definition orphans :: "rule_section list \<Rightarrow> (string \<times> full_rule) list \<Rightarrow> string list" where
  "orphans ss fs =
     map fst (filter (\<lambda>(f, r). \<not> list_ex (\<lambda>s. startsWith f (sectionPrefix s)) ss) fs)"

text \<open>
  Modelled from the spec: the hierarchical number of a rule, the rank of its section and
  its index in the section, and the anchor of a heading: its word characters, with every
  run of other characters turned into a dash.
\<close>

definition ruleNumber :: "rule_section \<Rightarrow> nat \<Rightarrow> string" where
  "ruleNumber s i = string_of_nat (rank s) @ ''.'' @ string_of_nat i"

fun anchorOf :: "string \<Rightarrow> string" where
  "anchorOf [] = []"
| "anchorOf (c # r) =
     (if isWordChar c then c # anchorOf r
      else if r \<noteq> [] \<and> isWordChar (hd r) then CHR ''-'' # anchorOf r
      else anchorOf r)"

text \<open>
  Modelled from the spec: the rendering of an example, of a rule under its numbered
  heading (title, impact badge, explanation, the examples in their order, the reference),
  of a table-of-contents line, and of a section with its rules numbered from 1.
\<close>

definition renderExample :: "example \<Rightarrow> string" where
  "renderExample ex =
     ''**'' @ label ex @ '':**\<newline>\<newline>```'' @
     (case language ex of Some l \<Rightarrow> l | None \<Rightarrow> []) @ ''\<newline>'' @
     code' ex @ ''\<newline>```\<newline>\<newline>''"

definition renderRule :: "string \<Rightarrow> full_rule \<Rightarrow> string" where
  "renderRule num r =
     ''### '' @ num @ '' '' @ title r @ ''\<newline>\<newline>'' @
     ''**Impact: '' @ impact r @ ''**\<newline>\<newline>'' @
     explanation r @ ''\<newline>\<newline>'' @
     concat (map renderExample (examples r)) @
     (case reference r of
        Some u \<Rightarrow> ''Reference: '' @ u @ ''\<newline>\<newline>''
      | None \<Rightarrow> [])"

definition tocLine :: "string \<Rightarrow> string \<Rightarrow> string" where
  "tocLine num heading =
     ''- ['' @ num @ '' '' @ heading @ ''](#'' @ anchorOf (num @ '' '' @ heading) @ '')\<newline>''"

definition numbered :: "'a list \<Rightarrow> (nat \<times> 'a) list" where
  "numbered xs = zip [1..<Suc (length xs)] xs"

definition renderSection :: "rule_section \<Rightarrow> (string \<times> full_rule) list \<Rightarrow> string" where
  "renderSection s fs =
     ''## '' @ string_of_nat (rank s) @ ''. '' @ sectionName s @ ''\<newline>\<newline>'' @
     ''**Impact: '' @ sectionImpact s @ ''**\<newline>\<newline>'' @ description s @ ''\<newline>\<newline>'' @
     concat (map (\<lambda>(i, (f, r)). renderRule (ruleNumber s i) r) (numbered (rulesOf s fs)))"

definition tocSection :: "rule_section \<Rightarrow> (string \<times> full_rule) list \<Rightarrow> string" where
  "tocSection s fs =
     tocLine (string_of_nat (rank s) @ ''.'') (sectionName s) @
     concat (map (\<lambda>(i, (f, r)). ''  '' @ tocLine (ruleNumber s i) (title r))
                 (numbered (rulesOf s fs)))"

text \<open>
  Modelled from the spec: the compiler.  An orphan rule stops the compilation with an
  error that names it; otherwise the document is the title block with the version, the
  abstract, the table of contents and the sections.
\<close>

definition compile ::
  "metadata \<Rightarrow> rule_section list \<Rightarrow> (string \<times> full_rule) list \<Rightarrow> string + string" where
  "compile m ss fs =
     (let ordered = orderedSections ss; rules = orderedRules fs
      in case orphans ordered rules of
           f # _ \<Rightarrow> Inl (''Rule matches no section: '' @ f)
         | [] \<Rightarrow>
             Inr (''# '' @ organization m @ '' Best Practices\<newline>\<newline>'' @
                  ''**Version '' @ versionText (version m) @ ''**\<newline>\<newline>'' @
                  abstractText m @ ''\<newline>\<newline>'' @
                  ''## Table of Contents\<newline>\<newline>'' @
                  concat (map (\<lambda>s. tocSection s rules) ordered) @ ''\<newline>'' @
                  concat (map (\<lambda>s. renderSection s rules) ordered)))"

text \<open>
  Modelled from the spec: a build.  In the normal mode it compiles with the version the
  metadata holds and writes nothing back.  In the upgrade mode it compiles with the patch
  level raised by one and, when the compilation succeeds, writes that version back.
\<close>

datatype build_mode = Normal | Upgrade

definition build :: "build_mode \<Rightarrow> repository \<Rightarrow> (string + string) \<times> repository" where
  "build mode repo =
     (case mode of
        Normal \<Rightarrow> (compile (meta repo) (sections repo) (ruleFiles repo), repo)
      | Upgrade \<Rightarrow>
          (let m = (meta repo)\<lparr>version := bumpPatch (version (meta repo))\<rparr>;
               out = compile m (sections repo) (ruleFiles repo)
           in (out, if isl out then repo else repo\<lparr>meta := m\<rparr>)))"


section \<open>Terms of the specification and concrete inputs\<close>

subsection \<open>Internal links\<close>

text \<open>
  The specification speaks of a link that ends in a file extension.  \<open>extname\<close> follows
  \<open>path.extname\<close> of Node: the part of the base name from its last dot on, empty when
  there is no dot or the base name starts with its only dot.  A link ends in a file
  extension when that part has a character behind the dot.
\<close>

definition extname :: "string \<Rightarrow> string" where
  "extname p =
     (let b = basename p; ext = rev (takeWhile (\<lambda>c. c \<noteq> CHR ''.'') (rev b))
      in if CHR ''.'' \<notin> set b \<or> length ext + 1 = length b then '''' else CHR ''.'' # ext)"

definition endsInFileExtension :: "string \<Rightarrow> bool" where
  "endsInFileExtension l = (length (extname l) > 1)"

text \<open>
  A rules directory with one rule file, which links to an image and to an anchor whose
  text ends in \<open>.md\<close>, and a second one, where a rule file links to a file that exists and
  to one that does not.
\<close>

definition fs_anchor :: rules_fs where
  "fs_anchor =
     \<lparr>readdir = Some [''a.md'', ''notes.txt''],
      readFile = (\<lambda>f. if f = ''a.md'' then Some ''See [x](#a.md) and [d](diagram.png).''
                      else None)\<rparr>"

definition fs_two :: rules_fs where
  "fs_two =
     \<lparr>readdir = Some [''a.md'', ''b.md'', ''notes.txt''],
      readFile = (\<lambda>f. if f = ''a.md'' then Some ''[b](b.md), [c](sub/c.md), [top](#intro)''
                      else if f = ''b.md'' then Some ''no links''
                      else None)\<rparr>"


subsection \<open>External links\<close>

text \<open>The sleeps of a run, in order, and their sum.\<close>

fun sleeps :: "net_event list \<Rightarrow> nat list" where
  "sleeps [] = []"
| "sleeps (Sleep ms # evs) = ms # sleeps evs"
| "sleeps (Fetch m # evs) = sleeps evs"

definition total_slept :: "net_event list \<Rightarrow> nat" where
  "total_slept evs = sum_list (sleeps evs)"

text \<open>
  What the network does in the attempt with number \<open>k\<close>, in the terms of the
  specification.  The attempt fails when its \<open>HEAD\<close> request is rejected, or is answered
  outside 200 to 299 and the \<open>GET\<close> request is rejected or answered outside 200 to 299.  It
  times out when the request that ends it is rejected with an \<open>AbortError\<close>.  It returns
  the status \<open>st\<close> when \<open>HEAD\<close> is answered with \<open>st\<close> from 200 to 299, or \<open>HEAD\<close> is answered
  outside that range and \<open>GET\<close> with \<open>st\<close> inside it.
\<close>

definition attempt_fails :: "network \<Rightarrow> nat \<Rightarrow> bool" where
  "attempt_fails net k =
     (case net k HEAD of
        Rejected e \<Rightarrow> True
      | Response r \<Rightarrow>
          \<not> ok r \<and> (case net k GET of Rejected e \<Rightarrow> True | Response g \<Rightarrow> \<not> ok g))"

definition attempt_times_out :: "network \<Rightarrow> nat \<Rightarrow> bool" where
  "attempt_times_out net k =
     (case net k HEAD of
        Rejected e \<Rightarrow> name e = ''AbortError''
      | Response r \<Rightarrow>
          \<not> ok r \<and>
          (case net k GET of Rejected e \<Rightarrow> name e = ''AbortError'' | Response g \<Rightarrow> False))"

definition attempt_returns :: "network \<Rightarrow> nat \<Rightarrow> nat \<Rightarrow> bool" where
  "attempt_returns net k st =
     (case net k HEAD of
        Rejected e \<Rightarrow> False
      | Response r \<Rightarrow>
          if ok r then status r = st
          else (case net k GET of
                  Rejected e \<Rightarrow> False
                | Response g \<Rightarrow> ok g \<and> status g = st))"

text \<open>
  Three networks: one on which every request runs into the abort timer; one on which the
  first two attempts do and the third is answered with status 200; one that answers
  \<open>HEAD\<close> with 405 and \<open>GET\<close> with 204.
\<close>

definition abortError :: js_error where
  "abortError = \<lparr>name = ''AbortError'', code = None,
                  message' = Some ''This operation was aborted''\<rparr>"

definition net_down :: network where
  "net_down = (\<lambda>k m. Rejected abortError)"

definition net_third_time :: network where
  "net_third_time =
     (\<lambda>k m. if k < 2 then Rejected abortError
             else Response \<lparr>status = 200, statusText = ''OK''\<rparr>)"

definition net_no_head :: network where
  "net_no_head =
     (\<lambda>k m. case m of
               HEAD \<Rightarrow> Response \<lparr>status = 405, statusText = ''Method Not Allowed''\<rparr>
             | GET \<Rightarrow> Response \<lparr>status = 204, statusText = ''No Content''\<rparr>)"

definition docs_source :: link_source where
  "docs_source = \<lparr>skill = ''clickhouse-best-practices'', file'' = ''SKILL.md''\<rparr>"

text \<open>
  Names for the proofs: the delay slept before the attempt with number \<open>attempt\<close>, the
  result returned when the retries are used up, and the invariant of a result.
\<close>

definition backoff :: "nat \<Rightarrow> nat" where
  "backoff attempt = RETRY_DELAYS ! (min (attempt - 1) (length RETRY_DELAYS - 1))"

definition exhausted ::
  "string \<Rightarrow> link_source \<Rightarrow> string \<Rightarrow> nat option \<Rightarrow> nat \<Rightarrow> LinkCheckResult" where
  "exhausted u src lastError lastStatusCode retries =
     \<lparr>url = u, success = False, statusCode = lastStatusCode, error = Some lastError,
      source = src, retriesUsed = retries\<rparr>"

definition result_ok :: "nat \<Rightarrow> LinkCheckResult \<Rightarrow> bool" where
  "result_ok m res =
     (retriesUsed res \<le> m \<and>
      (success res \<longrightarrow>
         (\<exists>c. statusCode res = Some c \<and> 200 \<le> c \<and> c \<le> 299) \<and> error res = None))"


subsection \<open>SQL snippets\<close>

text \<open>
  The specification speaks of a snippet that contains a dangerous construct, also when the
  call is split by a comment, by white space or written in mixed case.  \<open>skipGap\<close> reads
  over white space, block comments and line comments the way an SQL lexer does, from left
  to right: a line comment runs to the end of its line whatever it holds.  \<open>specCallAt\<close>
  is a deny-listed name followed by such a gap and a parenthesis, \<open>specContainsCall\<close> such
  a call at a word boundary anywhere in the snippet.
\<close>

function skipGap :: "string \<Rightarrow> string" where
  "skipGap [] = []"
| "skipGap (c # r) =
     (if isSpace c then skipGap r
      else (case blockCommentAt (c # r) of
              Some rest \<Rightarrow> skipGap rest
            | None \<Rightarrow>
                if c = CHR ''-'' \<and> startsWith r ''-''
                then skipGap (dropWhile (\<lambda>x. x \<noteq> CHR 0x0A) (tl r))
                else c # r))"
  by pat_completeness auto
termination
proof (relation "measure length")
  fix c :: char and r :: string
  have "length (dropWhile (\<lambda>x. x \<noteq> CHR 0x0A) (tl r)) \<le> length (tl r)"
    by (rule length_dropWhile_le)
  then show "(dropWhile (\<lambda>x. x \<noteq> CHR 0x0A) (tl r), c # r) \<in> measure length"
    by simp
qed (auto dest: blockCommentAt_shorter)

definition specCallAt :: "string \<Rightarrow> string \<Rightarrow> bool" where
  "specCallAt nm s =
     (case matchName nm s of
        None \<Rightarrow> False
      | Some rest \<Rightarrow> startsWith (skipGap rest) ''('')"

fun specContainsCall :: "string \<Rightarrow> bool \<Rightarrow> string \<Rightarrow> bool" where
  "specContainsCall nm prevWord [] = False"
| "specContainsCall nm prevWord (c # s) =
     ((prevWord \<noteq> isWordChar c \<and> specCallAt nm (c # s))
      \<or> specContainsCall nm (isWordChar c) s)"

definition specDangerous :: "string \<Rightarrow> bool" where
  "specDangerous sql = list_ex (\<lambda>(nm, description). specContainsCall nm False sql) dangerous"

text \<open>
  A snippet that calls \<open>file\<close>, with a line comment that holds \<open>/*\<close> between the name and the
  parenthesis and a line comment that holds \<open>*/\<close> at the end.
\<close>

definition bypass_sql :: string where
  \<open>bypass_sql = ''SELECT * FROM file --/*\<newline>(\'/etc/passwd\', \'CSV\') --*/''\<close>

text \<open>
  Hosts.  On \<open>host_ready\<close> the engine is there, every call succeeds and the engine
  writes nothing.  \<open>host_windows\<close> is an unsupported platform without the engine;
  \<open>host_offline\<close> is a Linux host without the engine on which every shell command is
  rejected.
\<close>

definition theRule :: rule where
  "theRule =
     \<lparr>title = ''Use PREWHERE'',
      examples = [\<lparr>label = ''Correct'', language = Some ''sql'', code' = ''SELECT 1''\<rparr>]\<rparr>"

definition host_ready :: host where
  "host_ready =
     \<lparr>CLICKHOUSE_DIR = ''/build/bin'', tmpdir = ''/tmp'', platform = ''linux'',
      clock = (\<lambda>n. 1700000000000 + n), statBinary = True, mkdirBin = True,
      chmodBinary = True, writeFile = (\<lambda>p d. True), execAsync = (\<lambda>c. Resolved [] []),
      readdirRules = Some [''query-prewhere.md''], parseRuleFile = (\<lambda>f. Some theRule)\<rparr>"

definition host_windows :: host where
  "host_windows = host_ready\<lparr>platform := ''win32'', statBinary := False\<rparr>"

definition host_offline :: host where
  "host_offline =
     host_ready\<lparr>statBinary := False,
                execAsync := (\<lambda>c. Rejected' ''Command failed: curl'')\<rparr>"

text \<open>
  What the release server does when the binary is fetched: it answers with an HTTP status,
  or no answer arrives.  The download succeeds when the answer has a status from 200 to
  299.  \<open>curlRun\<close> is what \<open>curl -L -o\<close> does, after its manual: without \<open>--fail\<close> it saves
  whatever body the server sends and ends with exit status 0, whatever the HTTP status; it
  ends with another status, and \<open>execAsync\<close> rejects, only when no answer arrives.
  \<open>host_fetching a\<close> is a Linux host without the engine whose release server does \<open>a\<close>;
  every other command resolves and writes nothing to its error stream, as the commands of
  \<open>validateSQL\<close> do with \<open>2>&1 || true\<close>.
\<close>

datatype release_answer = Answers nat | Unreachable

definition downloadSucceeds :: "release_answer \<Rightarrow> bool" where
  "downloadSucceeds a =
     (case a of Answers st \<Rightarrow> 200 \<le> st \<and> st \<le> 299 | Unreachable \<Rightarrow> False)"

definition curlRun :: "release_answer \<Rightarrow> exec_result" where
  "curlRun a =
     (case a of
        Answers st \<Rightarrow> Resolved [] []
      | Unreachable \<Rightarrow> Rejected' ''Command failed: curl'')"

definition releaseUrl :: string where
  "releaseUrl =
     ''https://github.com/ClickHouse/ClickHouse/releases/download/v24.1.8.22/clickhouse''"

definition host_fetching :: "release_answer \<Rightarrow> host" where
  "host_fetching a =
     host_ready\<lparr>statBinary := False,
                execAsync := (\<lambda>c. if c = curlCommand ''/build/bin/clickhouse'' releaseUrl
                                  then curlRun a else Resolved [] [])\<rparr>"

text \<open>
  The cases in which the script notices that it has no engine: the binary is not there,
  and the platform is unsupported or a step of the download (\<open>mkdir\<close>, the \<open>curl\<close>
  command, \<open>chmod\<close>) throws.  A download that the server answers with an error status
  is not among them, since the \<open>curl\<close> command does not throw then.  \<open>validates\<close> marks
  the effects of validating SQL: reading the rules directory, parsing a rule file, writing
  a snippet, and every shell command but the download.
\<close>

definition downloadThrows :: "host \<Rightarrow> bool" where
  "downloadThrows h =
     (case getDownloadUrl h of
        None \<Rightarrow> False
      | Some u \<Rightarrow>
          \<not> mkdirBin h \<or>
          (case execAsync h (curlCommand (CLICKHOUSE_BINARY h) u) of
             Rejected' msg \<Rightarrow> True
           | Resolved out err \<Rightarrow> False) \<or>
          \<not> chmodBinary h)"

definition noticesUnavailable :: "host \<Rightarrow> bool" where
  "noticesUnavailable h =
     (\<not> statBinary h \<and> (getPlatform h = unsupported \<or> downloadThrows h))"

definition validates :: "host \<Rightarrow> effect \<Rightarrow> bool" where
  "validates h e =
     (case e of
        Readdir \<Rightarrow> True
      | Parse f \<Rightarrow> True
      | WriteFile p d \<Rightarrow> True
      | Exec c \<Rightarrow>
          (case getDownloadUrl h of
             None \<Rightarrow> True
           | Some u \<Rightarrow> c \<noteq> curlCommand (CLICKHOUSE_BINARY h) u)
      | _ \<Rightarrow> False)"

definition skipWarning :: effect where
  "skipWarning = Print (Warn ''Skipping SQL validation (ClickHouse binary not available)'')"


subsection \<open>Rule sets\<close>

text \<open>
  A repository with two sections and three rules, and the same repository with its rules
  directory enumerated in another order.
\<close>

definition demoRule :: "string \<Rightarrow> full_rule" where
  "demoRule t =
     \<lparr>title = t,
      examples = [\<lparr>label = ''Incorrect'', language = Some ''sql'', code' = ''SELECT *''\<rparr>,
                  \<lparr>label = ''Correct'', language = Some ''sql'', code' = ''SELECT a''\<rparr>],
      impact = ''HIGH'', impactDescription = None, tags = [''query''],
      explanation = ''Read only what is needed.'', reference = None\<rparr>"

definition repo_a :: repository where
  "repo_a =
     \<lparr>meta = \<lparr>version = (1, 2, 3), organization = ''ClickHouse'',
               abstractText = ''Rules for schemas and queries.''\<rparr>,
      sections =
        [\<lparr>sectionName = ''Query Optimization'', sectionPrefix = ''query-'',
          sectionImpact = ''HIGH'', description = ''Queries.'', rank = 2\<rparr>,
         \<lparr>sectionName = ''Schema Design'', sectionPrefix = ''schema-'',
          sectionImpact = ''CRITICAL'', description = ''Schemas.'', rank = 1\<rparr>],
      ruleFiles =
        [(''query-b.md'', demoRule ''Filter early''),
         (''schema-a.md'', demoRule ''Plan the key''),
         (''query-a.md'', demoRule ''Avoid select star'')]\<rparr>"

definition repo_b :: repository where
  "repo_b =
     repo_a\<lparr>ruleFiles :=
              [(''schema-a.md'', demoRule ''Plan the key''),
               (''query-a.md'', demoRule ''Avoid select star''),
               (''query-b.md'', demoRule ''Filter early'')]\<rparr>"


section \<open>Properties of the internal link checker\<close>

lemma checkLink_eq:
  "checkLink rf f l =
     (if isInternalLink l \<and> endsWith l ''.md'' \<and> basename l \<notin> set rf
      then [\<lparr>file' = f, link = l,
             message = ''Referenced file does not exist: '' @ basename l\<rparr>]
      else [])"
  unfolding checkLink_def Let_def by (simp split: option.splits)

lemmas link_eval =
  allErrors_def endsWith_def checkFile_def checkLink_eq matchLink_def isInternalLink_def
  startsWith_def basename_def Let_def

lemma checkLink_iff:
  "e \<in> set (checkLink rf f l) \<longleftrightarrow>
     isInternalLink l \<and> endsWith l ''.md'' \<and> basename l \<notin> set rf \<and>
     e = \<lparr>file' = f, link = l, message = ''Referenced file does not exist: '' @ basename l\<rparr>"
  unfolding checkLink_eq by simp blast

lemma checkFiles_Some:
  "checkFiles fs rf fl = Some errs \<Longrightarrow>
     (\<forall>f\<in>set fl. readFile fs f \<noteq> None) \<and>
     set errs = (\<Union>f\<in>set fl. set (checkFile rf f (the (readFile fs f))))"
  by (induction fl arbitrary: errs) (auto split: option.splits)

lemma allErrors_mem:
  assumes "allErrors fs = Some errs"
  shows "e \<in> set errs \<longleftrightarrow>
    (\<exists>files f content l. readdir fs = Some files \<and> f \<in> set files \<and> endsWith f ''.md'' \<and>
       readFile fs f = Some content \<and> l \<in> set (extractLinks content) \<and>
       e \<in> set (checkLink (filter (\<lambda>g. endsWith g ''.md'') files) f l))"
proof -
  from assms obtain files where rd: "readdir fs = Some files"
    and cf: "checkFiles fs (filter (\<lambda>g. endsWith g ''.md'') files)
               (filter (\<lambda>g. endsWith g ''.md'') files) = Some errs"
    by (auto simp: allErrors_def Let_def split: option.splits)
  from checkFiles_Some[OF cf] show ?thesis
    using rd by (fastforce simp: checkFile_def)
qed

text \<open>
  Claim C5, as the code has it.  Let every read of the run succeed, and let \<open>l\<close> be an
  internal link (not starting with \<open>http://\<close> or \<open>https://\<close>) that ends in \<open>.md\<close> and stands in
  the rule file \<open>f\<close>.  Then the checker reports a violation for \<open>l\<close> in \<open>f\<close> if and only if the
  base name of \<open>l\<close> is not the name of a \<open>.md\<close> file of the rules directory.  So a link whose
  referenced file exists produces no violation.
\<close>

theorem internal_md_link_violation_iff:
  assumes "allErrors fs = Some errs"
    and "readdir fs = Some files"
    and "f \<in> set files" and "endsWith f ''.md''"
    and "readFile fs f = Some content"
    and "l \<in> set (extractLinks content)"
    and "isInternalLink l" and "endsWith l ''.md''"
  shows "(\<exists>e\<in>set errs. file' e = f \<and> link e = l) \<longleftrightarrow>
           basename l \<notin> set (filter (\<lambda>g. endsWith g ''.md'') files)"
proof
  assume "\<exists>e\<in>set errs. file' e = f \<and> link e = l"
  then obtain e where e: "e \<in> set errs" "file' e = f" "link e = l" by blast
  from e(1) assms(1,2) obtain f' l' where
    "e \<in> set (checkLink (filter (\<lambda>g. endsWith g ''.md'') files) f' l')"
    by (auto simp: allErrors_mem)
  then show "basename l \<notin> set (filter (\<lambda>g. endsWith g ''.md'') files)"
    using e(2,3) by (auto simp: checkLink_iff)
next
  assume n: "basename l \<notin> set (filter (\<lambda>g. endsWith g ''.md'') files)"
  let ?e = "\<lparr>file' = f, link = l,
              message = ''Referenced file does not exist: '' @ basename l\<rparr>"
  have "?e \<in> set (checkLink (filter (\<lambda>g. endsWith g ''.md'') files) f l)"
    using n assms(7,8) by (simp add: checkLink_iff)
  then have "?e \<in> set errs"
    using assms by (subst allErrors_mem[OF assms(1)]) blast
  then show "\<exists>e\<in>set errs. file' e = f \<and> link e = l"
    by (intro bexI[of _ ?e]) simp_all
qed

lemma fs_two_errors:
  "allErrors fs_two =
     Some [\<lparr>file' = ''a.md'', link = ''sub/c.md'',
            message = ''Referenced file does not exist: c.md''\<rparr>]"
  by (simp add: link_eval fs_two_def)

theorem internal_md_link_violation_iff_witness:
  "(\<exists>e\<in>set (the (allErrors fs_two)). file' e = ''a.md'' \<and> link e = ''sub/c.md'') \<and>
   basename ''sub/c.md'' = ''c.md'' \<and>
   ''c.md'' \<notin> set (filter (\<lambda>g. endsWith g ''.md'') [''a.md'', ''b.md'', ''notes.txt'']) \<and>
   \<not> (\<exists>e\<in>set (the (allErrors fs_two)). file' e = ''a.md'' \<and> link e = ''b.md'') \<and>
   ''b.md'' \<in> set (filter (\<lambda>g. endsWith g ''.md'') [''a.md'', ''b.md'', ''notes.txt''])"
proof -
  have links: "extractLinks ''[b](b.md), [c](sub/c.md), [top](#intro)''
                 = [''b.md'', ''sub/c.md'', ''#intro'']"
    by (simp add: matchLink_def)
  have c: "(\<exists>e\<in>set (the (allErrors fs_two)). file' e = ''a.md'' \<and> link e = ''sub/c.md'') \<longleftrightarrow>
           basename ''sub/c.md'' \<notin>
             set (filter (\<lambda>g. endsWith g ''.md'') [''a.md'', ''b.md'', ''notes.txt''])"
    by (rule internal_md_link_violation_iff
          [of fs_two _ _ "''a.md''" "''[b](b.md), [c](sub/c.md), [top](#intro)''"])
       (simp_all add: fs_two_errors links, simp_all add: fs_two_def link_eval)
  have b: "(\<exists>e\<in>set (the (allErrors fs_two)). file' e = ''a.md'' \<and> link e = ''b.md'') \<longleftrightarrow>
           basename ''b.md'' \<notin>
             set (filter (\<lambda>g. endsWith g ''.md'') [''a.md'', ''b.md'', ''notes.txt''])"
    by (rule internal_md_link_violation_iff
          [of fs_two _ _ "''a.md''" "''[b](b.md), [c](sub/c.md), [top](#intro)''"])
       (simp_all add: fs_two_errors links, simp_all add: fs_two_def link_eval)
  from c b show ?thesis
    by (simp add: basename_def endsWith_def)
qed

text \<open>
  The claim as it is written fails for a link that ends in another file extension: the
  image link of \<open>fs_anchor\<close> is internal, ends in \<open>.png\<close>, names no file of the directory,
  and is not reported.
\<close>

theorem extension_link_counterexample:
  "isInternalLink ''diagram.png'' \<and> endsInFileExtension ''diagram.png'' \<and>
   ''diagram.png'' \<in> set (extractLinks (the (readFile fs_anchor ''a.md''))) \<and>
   ''diagram.png'' \<notin> set (the (readdir fs_anchor)) \<and>
   \<not> (\<exists>e \<in> set (the (allErrors fs_anchor)). link e = ''diagram.png'')"
  by (simp add: link_eval fs_anchor_def endsInFileExtension_def extname_def)

text \<open>
  Claim C10, as the code has it.  Every violation the checker reports is for an internal
  link that ends in \<open>.md\<close>; so an anchor link (one that starts with \<open>#\<close>) that does not end
  in \<open>.md\<close> is never reported, whatever rule files there are.
\<close>

theorem only_md_links_violate:
  assumes "allErrors fs = Some errs"
  shows "(\<forall>e\<in>set errs. isInternalLink (link e) \<and> endsWith (link e) ''.md'') \<and>
         (\<forall>l. startsWith l ''#'' \<and> \<not> endsWith l ''.md'' \<longrightarrow> \<not> (\<exists>e\<in>set errs. link e = l))"
proof -
  have "\<forall>e\<in>set errs. isInternalLink (link e) \<and> endsWith (link e) ''.md''"
    using assms by (auto simp: allErrors_mem checkLink_iff)
  then show ?thesis by blast
qed

theorem only_md_links_violate_witness:
  "allErrors fs_two \<noteq> None \<and> startsWith ''#intro'' ''#'' \<and> \<not> endsWith ''#intro'' ''.md'' \<and>
   ''#intro'' \<in> set (extractLinks (the (readFile fs_two ''a.md''))) \<and>
   \<not> (\<exists>e\<in>set (the (allErrors fs_two)). link e = ''#intro'')"
proof -
  have "\<forall>l. startsWith l ''#'' \<and> \<not> endsWith l ''.md'' \<longrightarrow>
          \<not> (\<exists>e\<in>set (the (allErrors fs_two)). link e = l)"
    using only_md_links_violate[of fs_two "the (allErrors fs_two)"]
    by (simp add: fs_two_errors)
  then have "\<not> (\<exists>e\<in>set (the (allErrors fs_two)). link e = ''#intro'')"
    by (simp add: startsWith_def endsWith_def)
  moreover have "''#intro'' \<in> set (extractLinks (the (readFile fs_two ''a.md'')))"
    by (simp add: fs_two_def matchLink_def)
  ultimately show ?thesis
    by (simp add: fs_two_errors startsWith_def endsWith_def)
qed

text \<open>
  The claim as it is written fails for an anchor link whose text ends in \<open>.md\<close>: the test
  for a file reference comes first, so \<open>#a.md\<close> is looked up as a file name and reported,
  although the rule file \<open>a.md\<close> matches the anchor's prefix.
\<close>

theorem anchor_violation_counterexample:
  "startsWith ''#a.md'' ''#'' \<and> isInternalLink ''#a.md'' \<and>
   allErrors fs_anchor =
     Some [\<lparr>file' = ''a.md'', link = ''#a.md'',
            message = ''Referenced file does not exist: #a.md''\<rparr>] \<and>
   snd (checkLinks fs_anchor) = 1"
  by (simp add: link_eval fs_anchor_def checkLinks_def)


section \<open>Properties of the external link checker\<close>

lemma attempt_body_Return:
  assumes "attempt_body net u src k le ls ru = (evs, Return res)"
  shows "\<exists>c. res = succeeded u src c ru \<and> 200 \<le> c \<and> c \<le> 299"
  using assms
  by (auto simp: attempt_body_def ok_def split: fetch_result.splits if_splits)

lemma sleeps_append: "sleeps (xs @ ys) = sleeps xs @ sleeps ys"
  by (induction xs rule: sleeps.induct) simp_all

lemma attempt_body_no_sleep':
  "sleeps (fst (attempt_body net u src k le ls ru)) = []"
  by (simp add: attempt_body_def split: fetch_result.splits)

lemma attempt_body_no_sleep: "attempt_body net u src k le ls ru = (evs, out) \<Longrightarrow> sleeps evs = []"
  using attempt_body_no_sleep'[of net u src k le ls ru] by simp

lemma attempt_body_fails:
  assumes "attempt_fails net k"
  shows "\<exists>evs err st. attempt_body net u src k le ls ru = (evs, Next err st)"
  using assms
  by (auto simp: attempt_body_def attempt_fails_def ok_def split: fetch_result.splits)

lemma loop_first:
  "validateUrl_loop net u src m 0 le ls ru =
     (case attempt_body net u src 0 le ls ru of
        (evs, Return res) \<Rightarrow> (res, evs)
      | (evs, Next err st) \<Rightarrow>
          (case validateUrl_loop net u src m 1 err st ru of
             (res, later) \<Rightarrow> (res, evs @ later)))"
  by (subst validateUrl_loop.simps) simp

lemma loop_retry:
  "0 < a \<Longrightarrow> a \<le> m \<Longrightarrow>
   validateUrl_loop net u src m a le ls ru =
     (case attempt_body net u src a le ls (Suc ru) of
        (evs, Return res) \<Rightarrow> (res, Sleep (backoff a) # evs)
      | (evs, Next err st) \<Rightarrow>
          (case validateUrl_loop net u src m (Suc a) err st (Suc ru) of
             (res, later) \<Rightarrow> (res, Sleep (backoff a) # evs @ later)))"
  by (subst validateUrl_loop.simps) (simp add: backoff_def)

lemma loop_exhausted:
  "m < a \<Longrightarrow> validateUrl_loop net u src m a le ls ru = (exhausted u src le ls ru, [])"
  by (subst validateUrl_loop.simps) (simp add: exhausted_def)

lemma retries_all_fail:
  assumes "0 < a" and "a \<le> Suc m" and "\<forall>k. a \<le> k \<and> k \<le> m \<longrightarrow> attempt_fails net k"
  shows "\<exists>res evs. validateUrl_loop net u src m a le ls ru = (res, evs) \<and>
           \<not> success res \<and> retriesUsed res = ru + (Suc m - a) \<and>
           sleeps evs = map backoff [a..<Suc m]"
  using assms
proof (induction "Suc m - a" arbitrary: a le ls ru)
  case 0
  then have "m < a" by simp
  then show ?case
    using 0 by (simp add: loop_exhausted exhausted_def)
next
  case (Suc n)
  then have am: "a \<le> m" by simp
  with Suc.prems have "attempt_fails net a" by simp
  then obtain evs err st where ab: "attempt_body net u src a le ls (Suc ru) = (evs, Next err st)"
    using attempt_body_fails by blast
  have "n = Suc m - Suc a" using Suc.hyps(2) by simp
  from Suc.hyps(1)[OF this, of err st "Suc ru"] Suc.prems am
  obtain res later where rest: "validateUrl_loop net u src m (Suc a) err st (Suc ru) = (res, later)"
    "\<not> success res" "retriesUsed res = Suc ru + (Suc m - Suc a)"
    "sleeps later = map backoff [Suc a..<Suc m]"
    by auto
  have "[a..<Suc m] = a # [Suc a..<Suc m]"
    using am by (simp add: upt_conv_Cons)
  then show ?case
    using Suc.prems(1) am ab rest attempt_body_no_sleep[OF ab]
    by (simp add: loop_retry sleeps_append)
qed

lemma retries_invariant:
  assumes "0 < a" and "a \<le> Suc m" and "ru < a"
  shows "result_ok m (fst (validateUrl_loop net u src m a le ls ru))"
  using assms
proof (induction "Suc m - a" arbitrary: a le ls ru)
  case 0
  then have "m < a" by simp
  then show ?case
    using 0 by (simp add: loop_exhausted exhausted_def result_ok_def)
next
  case (Suc n)
  then have am: "a \<le> m" by simp
  obtain evs out where ab: "attempt_body net u src a le ls (Suc ru) = (evs, out)"
    by (cases "attempt_body net u src a le ls (Suc ru)")
  show ?case
  proof (cases out)
    case (Return res)
    with ab attempt_body_Return obtain c where "res = succeeded u src c (Suc ru)" "200 \<le> c" "c \<le> 299"
      by blast
    then show ?thesis
      using Suc.prems am ab Return
      by (simp add: loop_retry succeeded_def result_ok_def)
  next
    case (Next err st)
    have "n = Suc m - Suc a" using Suc.hyps(2) by simp
    from Suc.hyps(1)[OF this, of "Suc ru" err st] Suc.prems am
    have "result_ok m (fst (validateUrl_loop net u src m (Suc a) err st (Suc ru)))"
      by simp
    then show ?thesis
      using Suc.prems(1) am ab Next
      by (auto simp: loop_retry split: prod.splits)
  qed
qed

text \<open>
  Claim C9.  Every result of \<open>validateUrl\<close> has \<open>retriesUsed\<close> at most the maximum retry
  count it was called with, and a result with \<open>success = true\<close> has a status code, which
  lies between 200 and 299, and no error text.
\<close>

theorem result_invariant:
  "retriesUsed (fst (validateUrl net u src timeout maxRetries)) \<le> maxRetries \<and>
   (success (fst (validateUrl net u src timeout maxRetries)) \<longrightarrow>
      (\<exists>c. statusCode (fst (validateUrl net u src timeout maxRetries)) = Some c \<and>
           200 \<le> c \<and> c \<le> 299) \<and>
      error (fst (validateUrl net u src timeout maxRetries)) = None)"
proof -
  obtain evs out where ab: "attempt_body net u src 0 [] None 0 = (evs, out)"
    by (cases "attempt_body net u src 0 [] None 0")
  have "result_ok maxRetries (fst (validateUrl net u src timeout maxRetries))"
  proof (cases out)
    case (Return res)
    with ab attempt_body_Return obtain c where "res = succeeded u src c 0" "200 \<le> c" "c \<le> 299"
      by blast
    then show ?thesis
      using ab Return by (simp add: validateUrl_def loop_first succeeded_def result_ok_def)
  next
    case (Next err st)
    have "result_ok maxRetries (fst (validateUrl_loop net u src maxRetries 1 err st 0))"
      by (rule retries_invariant) simp_all
    then show ?thesis
      using ab Next by (auto simp: validateUrl_def loop_first split: prod.splits)
  qed
  then show ?thesis by (simp add: result_ok_def)
qed

theorem result_invariant_witness:
  "success (fst (validateUrl net_third_time ''https://clickhouse.com/docs'' docs_source
                   TIMEOUT_MS MAX_RETRIES)) \<and>
   retriesUsed (fst (validateUrl net_third_time ''https://clickhouse.com/docs'' docs_source
                       TIMEOUT_MS MAX_RETRIES)) \<le> MAX_RETRIES \<and>
   (\<exists>c. statusCode (fst (validateUrl net_third_time ''https://clickhouse.com/docs'' docs_source
                             TIMEOUT_MS MAX_RETRIES)) = Some c \<and> 200 \<le> c \<and> c \<le> 299) \<and>
   error (fst (validateUrl net_third_time ''https://clickhouse.com/docs'' docs_source
                 TIMEOUT_MS MAX_RETRIES)) = None"
proof -
  have "success (fst (validateUrl net_third_time ''https://clickhouse.com/docs'' docs_source
                        TIMEOUT_MS MAX_RETRIES))"
    by (simp add: validateUrl_def MAX_RETRIES_def loop_first loop_retry attempt_body_def
          net_third_time_def abortError_def errorText_def ok_def succeeded_def numeral_2_eq_2)
  with result_invariant
         [of net_third_time "''https://clickhouse.com/docs''" docs_source TIMEOUT_MS MAX_RETRIES]
  show ?thesis by simp
qed

lemma all_fail_general:
  assumes "\<forall>k\<le>m. attempt_fails net k"
  shows "\<exists>res evs. validateUrl net u src timeout m = (res, evs) \<and>
           \<not> success res \<and> retriesUsed res = m \<and> sleeps evs = map backoff [1..<Suc m]"
proof -
  from assms have "attempt_fails net 0" by simp
  then obtain evs err st where ab: "attempt_body net u src 0 [] None 0 = (evs, Next err st)"
    using attempt_body_fails by blast
  from assms have "\<forall>k. 1 \<le> k \<and> k \<le> m \<longrightarrow> attempt_fails net k" by simp
  from retries_all_fail[OF _ _ this, of u src err st 0]
  obtain res later where "validateUrl_loop net u src m 1 err st 0 = (res, later)"
    "\<not> success res" "retriesUsed res = m" "sleeps later = map backoff [1..<Suc m]"
    by auto
  then show ?thesis
    using ab attempt_body_no_sleep[OF ab]
    by (simp add: validateUrl_def loop_first sleeps_append)
qed

text \<open>
  Claim C3, as the code has it.  When every attempt fails (the first one and the
  \<open>MAX_RETRIES = 2\<close> retries), the result has \<open>success = false\<close> and \<open>retriesUsed = 2\<close>, and
  the run sleeps twice, 100 ms before the first retry and 200 ms before the second: 300 ms
  in all, the sum of the first two entries of \<open>RETRY_DELAYS\<close>.
\<close>

theorem all_attempts_fail:
  assumes "\<forall>k\<le>MAX_RETRIES. attempt_fails net k"
  shows "\<not> success (fst (validateUrl net u src TIMEOUT_MS MAX_RETRIES)) \<and>
         retriesUsed (fst (validateUrl net u src TIMEOUT_MS MAX_RETRIES)) = MAX_RETRIES \<and>
         sleeps (snd (validateUrl net u src TIMEOUT_MS MAX_RETRIES)) = [100, 200] \<and>
         total_slept (snd (validateUrl net u src TIMEOUT_MS MAX_RETRIES)) = 300"
proof -
  from all_fail_general[OF assms, of u src TIMEOUT_MS]
  obtain res evs where r: "validateUrl net u src TIMEOUT_MS MAX_RETRIES = (res, evs)"
    "\<not> success res" "retriesUsed res = MAX_RETRIES"
    "sleeps evs = map backoff [1..<Suc MAX_RETRIES]"
    by blast
  have "map backoff [1..<Suc MAX_RETRIES] = [100, 200]"
    by (simp add: MAX_RETRIES_def backoff_def RETRY_DELAYS_def upt_rec)
  with r show ?thesis by (simp add: total_slept_def)
qed

theorem all_attempts_fail_witness:
  "attempt_fails net_down 0 \<and> attempt_fails net_down 1 \<and> attempt_fails net_down 2 \<and>
   \<not> success (fst (validateUrl net_down ''https://example.invalid/'' docs_source TIMEOUT_MS MAX_RETRIES)) \<and>
   retriesUsed (fst (validateUrl net_down ''https://example.invalid/'' docs_source TIMEOUT_MS MAX_RETRIES)) = 2 \<and>
   total_slept (snd (validateUrl net_down ''https://example.invalid/'' docs_source TIMEOUT_MS MAX_RETRIES)) = 300"
proof -
  have f: "\<And>k. attempt_fails net_down k"
    by (simp add: attempt_fails_def net_down_def)
  then have "\<forall>k\<le>MAX_RETRIES. attempt_fails net_down k" by simp
  from all_attempts_fail[OF this, of "''https://example.invalid/''" docs_source] f
  show ?thesis by (simp add: MAX_RETRIES_def)
qed

text \<open>
  The claim as it is written asks for at least the sum of the configured delays, 700 ms.
  With two retries the third delay, 400 ms, is never slept: on a network that answers no
  request the run sleeps 300 ms.
\<close>

theorem backoff_sum_counterexample:
  "attempt_fails net_down 0 \<and> attempt_fails net_down 1 \<and> attempt_fails net_down 2 \<and>
   snd (validateUrl net_down ''https://example.invalid/'' docs_source TIMEOUT_MS MAX_RETRIES)
     = [Fetch HEAD, Sleep 100, Fetch HEAD, Sleep 200, Fetch HEAD] \<and>
   total_slept (snd (validateUrl net_down ''https://example.invalid/'' docs_source TIMEOUT_MS MAX_RETRIES)) = 300 \<and>
   sum_list RETRY_DELAYS = 700 \<and>
   \<not> sum_list RETRY_DELAYS \<le>
       total_slept (snd (validateUrl net_down ''https://example.invalid/'' docs_source TIMEOUT_MS MAX_RETRIES))"
proof -
  have ab: "\<And>k le ls ru. attempt_body net_down ''https://example.invalid/'' docs_source k le ls ru
              = ([Fetch HEAD], Next ''Request timeout'' ls)"
    by (simp add: attempt_body_def net_down_def errorText_def abortError_def)
  have "validateUrl net_down ''https://example.invalid/'' docs_source TIMEOUT_MS MAX_RETRIES
          = (exhausted ''https://example.invalid/'' docs_source ''Request timeout'' None 2,
             [Fetch HEAD, Sleep 100, Fetch HEAD, Sleep 200, Fetch HEAD])"
    by (simp add: validateUrl_def MAX_RETRIES_def loop_first loop_retry loop_exhausted ab
          backoff_def RETRY_DELAYS_def numeral_2_eq_2)
  then show ?thesis
    by (simp add: total_slept_def RETRY_DELAYS_def attempt_fails_def net_down_def)
qed

lemma attempt_body_times_out:
  assumes "attempt_times_out net k"
  shows "\<exists>evs. attempt_body net u src k le ls ru = (evs, Next ''Request timeout'' ls)"
proof (cases "net k HEAD")
  case (Rejected e)
  then show ?thesis
    using assms by (simp add: attempt_body_def attempt_times_out_def errorText_def)
next
  case (Response r)
  show ?thesis
  proof (cases "net k GET")
    case (Rejected e)
    then show ?thesis
      using assms Response by (simp add: attempt_body_def attempt_times_out_def errorText_def)
  next
    case g: (Response g)
    then show ?thesis
      using assms Response by (simp add: attempt_times_out_def)
  qed
qed

lemma attempt_body_returns:
  assumes "attempt_returns net k st"
  shows "\<exists>evs. attempt_body net u src k le ls ru = (evs, Return (succeeded u src st ru))"
proof (cases "net k HEAD")
  case (Rejected e)
  then show ?thesis
    using assms by (simp add: attempt_returns_def)
next
  case (Response r)
  show ?thesis
  proof (cases "ok r")
    case True
    then show ?thesis
      using assms Response by (simp add: attempt_body_def attempt_returns_def)
  next
    case False
    then show ?thesis
      using assms Response
      by (cases "net k GET") (simp_all add: attempt_body_def attempt_returns_def)
  qed
qed

text \<open>
  Claim C4.  When the first two attempts time out and the third returns status 200, the
  result of \<open>validateUrl\<close> with the configured retry count has \<open>success = true\<close>,
  \<open>statusCode = 200\<close> and \<open>retriesUsed = 2\<close>.
\<close>

theorem third_attempt_succeeds:
  assumes "attempt_times_out net 0" and "attempt_times_out net 1"
    and "attempt_returns net 2 200"
  shows "success (fst (validateUrl net u src TIMEOUT_MS MAX_RETRIES)) \<and>
         statusCode (fst (validateUrl net u src TIMEOUT_MS MAX_RETRIES)) = Some 200 \<and>
         retriesUsed (fst (validateUrl net u src TIMEOUT_MS MAX_RETRIES)) = 2"
proof -
  obtain e0 where a0: "attempt_body net u src 0 [] None 0 = (e0, Next ''Request timeout'' None)"
    using attempt_body_times_out[OF assms(1)] by blast
  obtain e1 where a1: "attempt_body net u src 1 ''Request timeout'' None 1
                         = (e1, Next ''Request timeout'' None)"
    using attempt_body_times_out[OF assms(2)] by blast
  obtain e2 where a2: "attempt_body net u src 2 ''Request timeout'' None 2
                         = (e2, Return (succeeded u src 200 2))"
    using attempt_body_returns[OF assms(3)] by blast
  have l2: "validateUrl_loop net u src 2 2 ''Request timeout'' None 1
              = (succeeded u src 200 2, Sleep (backoff 2) # e2)"
    using a2 by (simp add: loop_retry numeral_2_eq_2)
  have l1: "validateUrl_loop net u src 2 1 ''Request timeout'' None 0
              = (succeeded u src 200 2, Sleep (backoff 1) # e1 @ Sleep (backoff 2) # e2)"
    using a1 l2 by (simp add: loop_retry numeral_2_eq_2)
  have "validateUrl net u src TIMEOUT_MS MAX_RETRIES
          = (succeeded u src 200 2, e0 @ Sleep (backoff 1) # e1 @ Sleep (backoff 2) # e2)"
    using a0 l1 by (simp add: validateUrl_def MAX_RETRIES_def loop_first)
  then show ?thesis by (simp add: succeeded_def)
qed

theorem third_attempt_succeeds_witness:
  "attempt_times_out net_third_time 0 \<and> attempt_times_out net_third_time 1 \<and>
   attempt_returns net_third_time 2 200 \<and>
   success (fst (validateUrl net_third_time ''https://clickhouse.com/docs'' docs_source
                   TIMEOUT_MS MAX_RETRIES)) \<and>
   statusCode (fst (validateUrl net_third_time ''https://clickhouse.com/docs'' docs_source
                      TIMEOUT_MS MAX_RETRIES)) = Some 200 \<and>
   retriesUsed (fst (validateUrl net_third_time ''https://clickhouse.com/docs'' docs_source
                       TIMEOUT_MS MAX_RETRIES)) = 2"
proof -
  have h: "attempt_times_out net_third_time 0" "attempt_times_out net_third_time 1"
    "attempt_returns net_third_time 2 200"
    by (simp_all add: attempt_times_out_def attempt_returns_def net_third_time_def
          abortError_def ok_def)
  from third_attempt_succeeds[OF h, of "''https://clickhouse.com/docs''" docs_source] h
  show ?thesis by simp
qed

text \<open>
  Claim C7.  Every attempt issues a \<open>HEAD\<close> request first.  It issues a \<open>GET\<close> request only
  if \<open>HEAD\<close> was answered with a status outside 200 to 299.  If \<open>HEAD\<close> is answered with a
  status from 200 to 299, the attempt makes no further request and returns a successful
  result with that status; if \<open>HEAD\<close> is answered outside that range and \<open>GET\<close> inside it,
  the attempt returns a successful result with the status of \<open>GET\<close>.  What an attempt
  returns is what the loop returns, with no request or sleep after it.
\<close>

theorem head_first_get_fallback:
  "(\<exists>rest. fst (attempt_body net u src k le ls ru) = Fetch HEAD # rest) \<and>
   (Fetch GET \<in> set (fst (attempt_body net u src k le ls ru)) \<longrightarrow>
      (\<exists>r. net k HEAD = Response r \<and> \<not> (200 \<le> status r \<and> status r \<le> 299))) \<and>
   (\<forall>r. net k HEAD = Response r \<and> 200 \<le> status r \<and> status r \<le> 299 \<longrightarrow>
      attempt_body net u src k le ls ru = ([Fetch HEAD], Return (succeeded u src (status r) ru))) \<and>
   (\<forall>r g. net k HEAD = Response r \<and> \<not> (200 \<le> status r \<and> status r \<le> 299) \<and>
          net k GET = Response g \<and> 200 \<le> status g \<and> status g \<le> 299 \<longrightarrow>
      attempt_body net u src k le ls ru
        = ([Fetch HEAD, Fetch GET], Return (succeeded u src (status g) ru))) \<and>
   (\<forall>evs res. attempt_body net u src 0 le ls ru = (evs, Return res) \<longrightarrow>
      validateUrl_loop net u src m 0 le ls ru = (res, evs)) \<and>
   (\<forall>evs res. 0 < k \<and> k \<le> m \<and> attempt_body net u src k le ls (Suc ru) = (evs, Return res) \<longrightarrow>
      validateUrl_loop net u src m k le ls ru = (res, Sleep (backoff k) # evs))"
proof (intro conjI)
  show "\<exists>rest. fst (attempt_body net u src k le ls ru) = Fetch HEAD # rest"
    by (simp add: attempt_body_def split: fetch_result.splits)
  show "Fetch GET \<in> set (fst (attempt_body net u src k le ls ru)) \<longrightarrow>
          (\<exists>r. net k HEAD = Response r \<and> \<not> (200 \<le> status r \<and> status r \<le> 299))"
    by (cases "net k HEAD") (simp_all add: attempt_body_def ok_def)
  show "\<forall>r. net k HEAD = Response r \<and> 200 \<le> status r \<and> status r \<le> 299 \<longrightarrow>
      attempt_body net u src k le ls ru = ([Fetch HEAD], Return (succeeded u src (status r) ru))"
    by (simp add: attempt_body_def ok_def)
  show "\<forall>r g. net k HEAD = Response r \<and> \<not> (200 \<le> status r \<and> status r \<le> 299) \<and>
          net k GET = Response g \<and> 200 \<le> status g \<and> status g \<le> 299 \<longrightarrow>
      attempt_body net u src k le ls ru
        = ([Fetch HEAD, Fetch GET], Return (succeeded u src (status g) ru))"
    by (simp add: attempt_body_def ok_def)
  show "\<forall>evs res. attempt_body net u src 0 le ls ru = (evs, Return res) \<longrightarrow>
      validateUrl_loop net u src m 0 le ls ru = (res, evs)"
    by (simp add: loop_first)
  show "\<forall>evs res. 0 < k \<and> k \<le> m \<and> attempt_body net u src k le ls (Suc ru) = (evs, Return res) \<longrightarrow>
      validateUrl_loop net u src m k le ls ru = (res, Sleep (backoff k) # evs)"
    by (simp add: loop_retry)
qed

theorem head_first_get_fallback_witness:
  "net_no_head 0 HEAD = Response \<lparr>status = 405, statusText = ''Method Not Allowed''\<rparr> \<and>
   net_no_head 0 GET = Response \<lparr>status = 204, statusText = ''No Content''\<rparr> \<and>
   validateUrl net_no_head ''https://clickhouse.com/docs'' docs_source TIMEOUT_MS MAX_RETRIES
     = (succeeded ''https://clickhouse.com/docs'' docs_source 204 0, [Fetch HEAD, Fetch GET])"
proof -
  have h: "net_no_head 0 HEAD = Response \<lparr>status = 405, statusText = ''Method Not Allowed''\<rparr>"
    and g: "net_no_head 0 GET = Response \<lparr>status = 204, statusText = ''No Content''\<rparr>"
    by (simp_all add: net_no_head_def)
  from head_first_get_fallback
         [of net_no_head "''https://clickhouse.com/docs''" docs_source 0 "[]" None 0 MAX_RETRIES]
  have ab: "attempt_body net_no_head ''https://clickhouse.com/docs'' docs_source 0 [] None 0
          = ([Fetch HEAD, Fetch GET],
             Return (succeeded ''https://clickhouse.com/docs'' docs_source 204 0))"
    and lp: "\<forall>evs res.
        attempt_body net_no_head ''https://clickhouse.com/docs'' docs_source 0 [] None 0
          = (evs, Return res) \<longrightarrow>
        validateUrl_loop net_no_head ''https://clickhouse.com/docs'' docs_source MAX_RETRIES 0
          [] None 0 = (res, evs)"
    using h g by simp_all
  from lp ab h g show ?thesis
    by (simp add: validateUrl_def)
qed


section \<open>Properties of the SQL validator\<close>

lemmas sql_eval =
  blockCommentAt_def startsWith_def isSpace_def isWordChar_def isDigit_def upperAscii_def

lemma matchName_rest: "matchName nm s = Some rest \<Longrightarrow> set rest \<subseteq> set s"
  by (induction nm s rule: matchName.induct) (auto split: if_splits)

lemma callAt_paren: "callAt nm s \<Longrightarrow> CHR ''('' \<in> set s"
proof -
  assume "callAt nm s"
  then obtain rest where r: "matchName nm s = Some rest"
    and p: "startsWith (dropWhile isSpace rest) ''(''"
    by (auto simp: callAt_def split: option.splits)
  from p have "CHR ''('' \<in> set (dropWhile isSpace rest)"
    by (cases "dropWhile isSpace rest") (simp_all add: startsWith_def)
  then have "CHR ''('' \<in> set rest"
    by (rule set_dropWhileD)
  with matchName_rest[OF r] show ?thesis by blast
qed

lemma testCall_paren: "testCall nm p s \<Longrightarrow> CHR ''('' \<in> set s"
  by (induction s arbitrary: p) (auto dest: callAt_paren)

lemma no_paren_no_pattern:
  "CHR ''('' \<notin> set (sqlNoComments sql) \<Longrightarrow> containsDangerousPatterns sql = None"
proof -
  assume "CHR ''('' \<notin> set (sqlNoComments sql)"
  then have "\<And>nm. \<not> testCall nm False (sqlNoComments sql)"
    using testCall_paren by blast
  then have "find (\<lambda>(nm, description). testCall nm False (sqlNoComments sql)) dangerous = None"
    by (simp add: find_None_iff)
  then show ?thesis by (simp add: containsDangerousPatterns_def)
qed

lemma dangerous_never_runs:
  "truthy (containsDangerousPatterns sql) \<Longrightarrow>
   validateSQL h now sql = ([], Inr (containsDangerousPatterns sql))"
  by (simp add: validateSQL_def)

text \<open>
  Scenario B of the specification and the two forms the code's own comment names, with
  mixed case and extra white space: each is classified as a security violation, and
  \<open>validateSQL\<close> returns before it has done anything.
\<close>

lemma deny_list_catches:
  \<open>containsDangerousPatterns ''SELECT * FROM file(\'/etc/passwd\', \'CSV\')'' =
     Some ''Security: SQL contains dangerous pattern: file() table function (file system access)''\<close>
  \<open>containsDangerousPatterns ''SELECT * FROM FiLe/**/(\'/etc/passwd\')'' =
     Some ''Security: SQL contains dangerous pattern: file() table function (file system access)''\<close>
  \<open>containsDangerousPatterns ''SELECT * FROM file-- x\<newline>  (\'/etc/passwd\')'' =
     Some ''Security: SQL contains dangerous pattern: file() table function (file system access)''\<close>
  \<open>containsDangerousPatterns ''SELECT SLEEP \<newline> (3)'' =
     Some ''Security: SQL contains dangerous pattern: sleep() function (timing attack vector)''\<close>
  by (simp_all add: containsDangerousPatterns_def sqlNoComments_def dangerous_def callAt_def
        sql_eval)

lemma scenario_B:
  \<open>validateSQL h now ''SELECT * FROM file(\'/etc/passwd\', \'CSV\')'' =
     ([], Inr (Some ''Security: SQL contains dangerous pattern: file() table function (file system access)''))\<close>
  using dangerous_never_runs[of \<open>''SELECT * FROM file(\'/etc/passwd\', \'CSV\')''\<close> h now]
  by (simp add: deny_list_catches(1) truthy_def)

lemma bypass_stripped: "sqlNoComments bypass_sql = ''SELECT * FROM file ''"
  by (simp add: sqlNoComments_def bypass_sql_def sql_eval)

lemma bypass_undetected: "containsDangerousPatterns bypass_sql = None"
  by (rule no_paren_no_pattern) (simp add: bypass_stripped)

lemma bypass_calls_file: "specContainsCall ''file'' False bypass_sql"
  by (simp add: bypass_sql_def specCallAt_def sql_eval)

lemma bypass_dangerous: "specDangerous bypass_sql"
  unfolding specDangerous_def list_ex_iff
  by (rule bexI[of _ "(''file'', ''file() table function (file system access)'')"])
     (simp_all add: bypass_calls_file dangerous_def)

text \<open>
  Claim C1 asks that every snippet with a deny-listed call, also one split by a comment, is
  classified as a security violation and never reaches the engine.  The code does not do
  so for \<open>bypass_sql\<close>: the snippet calls \<open>file\<close> with a line comment between the name and
  the parenthesis, the block-comment pattern is applied first and takes everything from
  the \<open>/*\<close> inside the first line comment to the \<open>*/\<close> inside the last one, the parenthesis
  included, and no pattern matches what is left.  \<open>validateSQL\<close> writes the snippet to the
  temporary file and runs the engine on it.
\<close>

theorem deny_list_bypass:
  "specDangerous bypass_sql \<and> containsDangerousPatterns bypass_sql = None \<and>
   validateSQL host_ready 1700000000001 bypass_sql =
     ([WriteFile ''/tmp/clickhouse-validate-1700000000001.sql'' bypass_sql,
       Exec (engineCommand ''/build/bin/clickhouse'' ''/tmp/clickhouse-validate-1700000000001.sql''),
       Exec (cleanupCommand ''/tmp/clickhouse-validate-1700000000001.sql'')],
      Inr None)"
  by (simp add: bypass_dangerous bypass_undetected validateSQL_def truthy_def tmpFileName_def
        host_ready_def CLICKHOUSE_BINARY_def engineVerdict_def digitChar_def Let_def)

lemma includes_str_startsWith: "startsWith s p \<Longrightarrow> includes_str s p"
  by (cases s) (auto simp: startsWith_def)

lemma includes_str_mid: "includes_str (a @ p @ b) p"
proof (induction a)
  case Nil
  show ?case by (rule includes_str_startsWith) (simp add: startsWith_def)
next
  case (Cons c a)
  then show ?case by simp
qed

lemma includes_str_appendI: "includes_str s p \<Longrightarrow> includes_str (a @ s) p"
  by (induction a) simp_all

lemma engineCommand_tail:
  \<open>engineCommand b t =
     (''"'' @ b @ ''" local --query-file "'' @ t) @
     ''" --output-format Null --readonly=2 --allow_introspection_functions=0 --allow_ddl=0 --max_execution_time=10 --max_memory_usage=100000000 --max_rows_to_read=1000000 --user_files_path="/dev/null" --format_schema_path="/dev/null" 2>&1 || true''\<close>
  by (simp add: engineCommand_def)

lemma hardened_engine_flags:
  \<open>includes_str (engineCommand b t) ''--readonly=2'' \<and>
   includes_str (engineCommand b t) ''--allow_ddl=0'' \<and>
   includes_str (engineCommand b t) ''--allow_introspection_functions=0'' \<and>
   includes_str (engineCommand b t) ''--max_execution_time=10'' \<and>
   includes_str (engineCommand b t) ''--max_memory_usage=100000000'' \<and>
   includes_str (engineCommand b t) ''--max_rows_to_read=1000000'' \<and>
   includes_str (engineCommand b t) ''--user_files_path="/dev/null"'' \<and>
   includes_str (engineCommand b t) ''--format_schema_path="/dev/null"''\<close>
  unfolding engineCommand_tail
  by (intro conjI includes_str_appendI) (simp_all add: startsWith_def)

lemma hardened_engine_call:
  "Exec c \<in> set (fst (validateSQL h now sql)) \<Longrightarrow>
   c = engineCommand (CLICKHOUSE_BINARY h) (tmpFileName h now) \<or>
   c = cleanupCommand (tmpFileName h now)"
  by (auto simp: validateSQL_def Let_def split: if_splits)

text \<open>
  Claim C2 asks that no snippet is passed to the engine without the restrictive flags.
  \<open>validateSQL\<close> of \<open>part_010\<close> passes them on every call (\<open>hardened_engine_call\<close>,
  \<open>hardened_engine_flags\<close>).  \<open>validateSQL\<close> of
  \<open>src/packages/clickhouse-best-practices-build/src/validate-sql.ts\<close> does not: for the
  snippet \<open>SELECT 1\<close> it runs the engine with \<open>--query\<close> and \<open>--output-format Null\<close> only.
\<close>

theorem package_call_without_flags:
  \<open>validateSQL_package host_ready 1700000000001 ''SELECT 1'' =
     ([WriteFile ''/tmp/clickhouse-validate-1700000000001.sql'' ''SELECT 1'',
       Exec (''"/build/bin/clickhouse" local --query '' @
             ''"$(cat "/tmp/clickhouse-validate-1700000000001.sql")" '' @
             ''--output-format Null 2>&1 || true''),
       Exec ''rm -f "/tmp/clickhouse-validate-1700000000001.sql"''],
      Inr None) \<and>
   \<not> includes_str
       (packageCommand ''/build/bin/clickhouse'' ''/tmp/clickhouse-validate-1700000000001.sql'')
       ''--readonly=2'' \<and>
   \<not> includes_str
       (packageCommand ''/build/bin/clickhouse'' ''/tmp/clickhouse-validate-1700000000001.sql'')
       ''--allow_ddl=0''\<close>
  by (simp add: validateSQL_package_def tmpFileName_def host_ready_def CLICKHOUSE_BINARY_def
        engineVerdict_def digitChar_def Let_def packageCommand_def cleanupCommand_def
        startsWith_def)

lemma ensure_unavailable:
  assumes "noticesUnavailable h"
  shows "\<not> snd (ensureClickHouse h) \<and> (\<forall>e\<in>set (fst (ensureClickHouse h)). \<not> validates h e)"
proof (cases "getDownloadUrl h")
  case None
  then show ?thesis
    using assms by (simp add: ensureClickHouse_def noticesUnavailable_def Let_def validates_def)
next
  case (Some u)
  then have "getPlatform h \<noteq> unsupported"
    by (auto simp: getDownloadUrl_def split: os.splits)
  with assms Some have f: "\<not> statBinary h" "\<not> mkdirBin h \<or>
      (case execAsync h (curlCommand (CLICKHOUSE_BINARY h) u) of
         Rejected' msg \<Rightarrow> True | Resolved out err \<Rightarrow> False) \<or> \<not> chmodBinary h"
    by (simp_all add: noticesUnavailable_def downloadThrows_def)
  show ?thesis
  proof (cases "execAsync h (curlCommand (CLICKHOUSE_BINARY h) u)")
    case (Rejected' msg)
    then show ?thesis
      using f Some by (simp add: ensureClickHouse_def Let_def validates_def)
  next
    case (Resolved out err)
    then show ?thesis
      using f Some by (auto simp: ensureClickHouse_def Let_def validates_def)
  qed
qed

text \<open>
  Where the script notices that it has no engine (the binary is not there, and the
  platform is unsupported or a step of the download throws), the run ends with exit status
  0, the last thing it does is print the warning that SQL validation is skipped, and it
  validates nothing: it reads no rule, writes no snippet and runs no command but the
  download.  This holds for either \<open>validateSQL\<close>.
\<close>

lemma noticed_unavailable_skips:
  assumes "noticesUnavailable h"
  shows "snd (validateSQLInRules_with v h) = 0 \<and>
         last (fst (validateSQLInRules_with v h)) = skipWarning \<and>
         (\<forall>e\<in>set (fst (validateSQLInRules_with v h)). \<not> validates h e)"
proof -
  obtain acquiring has where e: "ensureClickHouse h = (acquiring, has)"
    by (cases "ensureClickHouse h")
  with ensure_unavailable[OF assms] have "\<not> has" "\<forall>e\<in>set acquiring. \<not> validates h e"
    by simp_all
  then show ?thesis
    using e by (simp add: validateSQLInRules_with_def skipWarning_def validates_def)
qed

lemma noticed_unavailable_examples:
  "noticesUnavailable host_windows \<and> getPlatform host_windows = unsupported \<and>
   snd (validateSQLInRules host_windows) = 0 \<and>
   last (fst (validateSQLInRules host_windows)) = skipWarning \<and>
   noticesUnavailable host_offline \<and> downloadThrows host_offline \<and>
   snd (validateSQLInRules host_offline) = 0 \<and>
   last (fst (validateSQLInRules host_offline)) = skipWarning"
proof -
  have w: "noticesUnavailable host_windows" "getPlatform host_windows = unsupported"
    by (simp_all add: noticesUnavailable_def getPlatform_def host_windows_def host_ready_def)
  have d: "downloadThrows host_offline"
    by (simp add: downloadThrows_def getDownloadUrl_def getPlatform_def host_offline_def
          host_ready_def)
  then have o: "noticesUnavailable host_offline"
    by (simp add: noticesUnavailable_def host_offline_def host_ready_def)
  from noticed_unavailable_skips[OF w(1), of validateSQL]
       noticed_unavailable_skips[OF o, of validateSQL] w d o
  show ?thesis by (simp add: validateSQLInRules_def)
qed

text \<open>
  On a supported platform without the engine, a \<open>curl\<close> command that resolves counts as a
  download, whatever it fetched: \<open>ensureClickHouse\<close> returns true and the run goes on to
  read the rules directory.
\<close>

lemma resolved_curl_counts_as_download:
  assumes "\<not> statBinary h" and "getDownloadUrl h = Some u" and "mkdirBin h"
    and "chmodBinary h"
    and "execAsync h (curlCommand (CLICKHOUSE_BINARY h) u) = Resolved out err"
  shows "snd (ensureClickHouse h) \<and> Readdir \<in> set (fst (validateSQLInRules_with v h))"
proof -
  from assms have e: "snd (ensureClickHouse h)"
    by (simp add: ensureClickHouse_def Let_def)
  obtain acquiring where a: "ensureClickHouse h = (acquiring, True)"
    using e by (cases "ensureClickHouse h") simp
  show ?thesis
  proof (cases "readdirRules h")
    case None
    then show ?thesis
      using a by (simp add: validateSQLInRules_with_def)
  next
    case (Some files)
    obtain effs errs n where
      "validateFiles v h
         (filter (\<lambda>f. endsWith f ''.md'' \<and> \<not> startsWith f ''_'' \<and> f \<noteq> ''README.md'') files) 0
       = (effs, errs, n)"
      using prod_cases3 by blast
    then show ?thesis
      using a Some by (simp add: validateSQLInRules_with_def Let_def del: validateFiles.simps)
  qed
qed

lemma fetching_url: "getDownloadUrl (host_fetching a) = Some releaseUrl"
  by (simp add: getDownloadUrl_def getPlatform_def host_fetching_def host_ready_def
        CLICKHOUSE_VERSION_def releaseUrl_def)

lemma fetching_404_acquires: "ensureClickHouse (host_fetching (Answers 404)) =
     ([Stat ''/build/bin/clickhouse'', Print (Log ''Downloading ClickHouse binary...''),
       Mkdir ''/build/bin'', Exec (curlCommand ''/build/bin/clickhouse'' releaseUrl),
       Chmod ''/build/bin/clickhouse'', Print (Log ''ClickHouse binary downloaded'')],
      True)"
  by (simp add: ensureClickHouse_def fetching_url Let_def CLICKHOUSE_BINARY_def)
     (simp add: host_fetching_def host_ready_def curlRun_def)

text \<open>
  Claim C6 asks that a run which cannot acquire the engine, the download failing
  included, prints the warning, skips all SQL validation and ends with status 0.  The
  code does not do so when the release server answers the download with an error status:
  on \<open>host_fetching (Answers 404)\<close> the \<open>curl\<close> command resolves, \<open>ensureClickHouse\<close> logs
  that the binary was downloaded and returns true, and the run prints no warning, reads
  the rules, runs a command on the one SQL example and reports it valid.
\<close>

theorem http_error_download_unnoticed:
  "\<not> statBinary (host_fetching (Answers 404)) \<and> \<not> downloadSucceeds (Answers 404) \<and>
   validateSQLInRules (host_fetching (Answers 404)) =
     ([Print (Log ''Validating SQL syntax in rule files...''),
       Stat ''/build/bin/clickhouse'', Print (Log ''Downloading ClickHouse binary...''),
       Mkdir ''/build/bin'', Exec (curlCommand ''/build/bin/clickhouse'' releaseUrl),
       Chmod ''/build/bin/clickhouse'', Print (Log ''ClickHouse binary downloaded''),
       Readdir, Parse ''query-prewhere.md'',
       WriteFile ''/tmp/clickhouse-validate-1700000000001.sql'' ''SELECT 1'',
       Exec (engineCommand ''/build/bin/clickhouse''
               ''/tmp/clickhouse-validate-1700000000001.sql''),
       Exec (cleanupCommand ''/tmp/clickhouse-validate-1700000000001.sql''),
       Print (Log ''All 1 SQL examples are valid'')],
      0) \<and>
   skipWarning \<notin> set (fst (validateSQLInRules (host_fetching (Answers 404))))"
proof -
  let ?h = "host_fetching (Answers 404)"
  have n: "containsDangerousPatterns ''SELECT 1'' = None"
    by (rule no_paren_no_pattern) (simp add: sqlNoComments_def sql_eval)
  have t: "tmpFileName ?h 1700000000001 = ''/tmp/clickhouse-validate-1700000000001.sql''"
    by (simp add: tmpFileName_def host_fetching_def host_ready_def digitChar_def)
  have b: "CLICKHOUSE_BINARY ?h = ''/build/bin/clickhouse''"
    by (simp add: CLICKHOUSE_BINARY_def host_fetching_def host_ready_def)
  have x: "execAsync ?h (engineCommand ''/build/bin/clickhouse''
                           ''/tmp/clickhouse-validate-1700000000001.sql'') = Resolved [] []"
    by (simp add: host_fetching_def host_ready_def engineCommand_def curlCommand_def)
  have v: "validateSQL ?h 1700000000001 ''SELECT 1'' =
     ([WriteFile ''/tmp/clickhouse-validate-1700000000001.sql'' ''SELECT 1'',
       Exec (engineCommand ''/build/bin/clickhouse''
               ''/tmp/clickhouse-validate-1700000000001.sql''),
       Exec (cleanupCommand ''/tmp/clickhouse-validate-1700000000001.sql'')],
      Inr None)"
    by (simp add: validateSQL_def n truthy_def t Let_def b x engineVerdict_def)
       (simp add: host_fetching_def host_ready_def)
  have c: "clock ?h (Suc 0) = 1700000000001"
    by (simp add: host_fetching_def host_ready_def)
  have r: "readdirRules ?h = Some [''query-prewhere.md'']" "parseRuleFile ?h = (\<lambda>f. Some theRule)"
    by (simp_all add: host_fetching_def host_ready_def)
  have f: "validateFiles validateSQL ?h [''query-prewhere.md''] 0 =
     ([Parse ''query-prewhere.md'',
       WriteFile ''/tmp/clickhouse-validate-1700000000001.sql'' ''SELECT 1'',
       Exec (engineCommand ''/build/bin/clickhouse''
               ''/tmp/clickhouse-validate-1700000000001.sql''),
       Exec (cleanupCommand ''/tmp/clickhouse-validate-1700000000001.sql'')],
      [], 1)"
    by (simp add: r theRule_def isSqlExample_def trim_def isSpace_def truthy_def c v)
  have run: "validateSQLInRules ?h =
     ([Print (Log ''Validating SQL syntax in rule files...''),
       Stat ''/build/bin/clickhouse'', Print (Log ''Downloading ClickHouse binary...''),
       Mkdir ''/build/bin'', Exec (curlCommand ''/build/bin/clickhouse'' releaseUrl),
       Chmod ''/build/bin/clickhouse'', Print (Log ''ClickHouse binary downloaded''),
       Readdir, Parse ''query-prewhere.md'',
       WriteFile ''/tmp/clickhouse-validate-1700000000001.sql'' ''SELECT 1'',
       Exec (engineCommand ''/build/bin/clickhouse''
               ''/tmp/clickhouse-validate-1700000000001.sql''),
       Exec (cleanupCommand ''/tmp/clickhouse-validate-1700000000001.sql''),
       Print (Log ''All 1 SQL examples are valid'')],
      0)"
    by (simp add: validateSQLInRules_def validateSQLInRules_with_def fetching_404_acquires r endsWith_def
          startsWith_def f digitChar_def Let_def del: validateFiles.simps)
  have "\<not> statBinary ?h" "\<not> downloadSucceeds (Answers 404)"
    by (simp_all add: host_fetching_def host_ready_def downloadSucceeds_def)
  then show ?thesis
    by (simp add: run skipWarning_def)
qed


section \<open>Properties of the compiler\<close>

lemma filter_same_key:
  "distinct (map f xs) \<Longrightarrow> k \<in> set xs \<Longrightarrow> filter (\<lambda>x. f k = f x) xs = [k]"
proof (induction xs)
  case Nil
  then show ?case by simp
next
  case (Cons x xs)
  show ?case
  proof (cases "k = x")
    case True
    have "filter (\<lambda>y. f x = f y) xs = []"
      using Cons.prems(1) by (auto simp: filter_empty_conv)
    with True show ?thesis by simp
  next
    case False
    with Cons.prems have k: "k \<in> set xs" by simp
    then have "f k \<in> f ` set xs" by (rule imageI)
    with Cons.prems(1) have "f k \<noteq> f x" by auto
    with Cons k show ?thesis by simp
  qed
qed

lemma orderedRules_perm:
  assumes "mset fs' = mset fs" and "distinct (map fst fs)"
  shows "orderedRules fs' = orderedRules fs"
  unfolding orderedRules_def
proof (rule properties_for_sort_key)
  show "mset (sort_key fst fs) = mset fs'"
    using assms(1) by simp
  show "sorted (map fst (sort_key fst fs))"
    by simp
  fix k assume k: "k \<in> set (sort_key fst fs)"
  have "mset (map fst fs') = mset (map fst fs)"
    using assms(1) by (metis mset_map)
  then have d': "distinct (map fst fs')"
    using assms(2) by (metis mset_eq_imp_distinct_iff)
  have "mset (map fst (sort_key fst fs)) = mset (map fst fs)"
    by (metis mset_map mset_sort)
  then have ds: "distinct (map fst (sort_key fst fs))"
    using assms(2) by (metis mset_eq_imp_distinct_iff)
  have "k \<in> set fs'"
    using k assms(1) by (metis mset_eq_setD set_sort)
  with d' have "filter (\<lambda>x. fst k = fst x) fs' = [k]"
    by (rule filter_same_key)
  moreover from ds k have "filter (\<lambda>x. fst k = fst x) (sort_key fst fs) = [k]"
    by (rule filter_same_key)
  ultimately show "filter (\<lambda>x. fst k = fst x) (sort_key fst fs) = filter (\<lambda>x. fst k = fst x) fs'"
    by simp
qed

lemma compile_perm:
  assumes "mset fs' = mset fs" and "distinct (map fst fs)"
  shows "compile m ss fs' = compile m ss fs"
  by (simp add: compile_def orderedRules_perm[OF assms])

text \<open>
  Claim C8.  A build in the normal mode leaves the repository as it was, so a second build
  right after it gives the same document; and two normal builds over the same metadata,
  the same sections and the same set of rule files give the same document, in whatever
  order the rules directory is enumerated (file names are unique in a directory).
\<close>

theorem build_deterministic:
  assumes "meta r2 = meta r1" and "sections r2 = sections r1"
    and "mset (ruleFiles r2) = mset (ruleFiles r1)"
    and "distinct (map fst (ruleFiles r1))"
  shows "snd (build Normal r1) = r1 \<and>
         fst (build Normal (snd (build Normal r1))) = fst (build Normal r1) \<and>
         fst (build Normal r2) = fst (build Normal r1)"
proof -
  have "compile (meta r1) (sections r1) (ruleFiles r2)
          = compile (meta r1) (sections r1) (ruleFiles r1)"
    using assms(3,4) by (rule compile_perm)
  then show ?thesis
    using assms(1,2) by (simp add: build_def)
qed

lemma rules_a: "sort_key fst
    [(''query-b.md'', demoRule ''Filter early''),
     (''schema-a.md'', demoRule ''Plan the key''),
     (''query-a.md'', demoRule ''Avoid select star'')] =
  [(''query-a.md'', demoRule ''Avoid select star''), (''query-b.md'', demoRule ''Filter early''),
   (''schema-a.md'', demoRule ''Plan the key'')]"
  by simp

lemma orphans_a:
  "orphans (orderedSections (sections repo_a)) (orderedRules (ruleFiles repo_a)) = []"
  by (simp add: orderedRules_def rules_a orphans_def orderedSections_def startsWith_def
        repo_a_def)

lemma compile_succeeds:
  "orphans (orderedSections ss) (orderedRules fs) = [] \<Longrightarrow> \<not> isl (compile m ss fs)"
  by (simp add: compile_def Let_def)

lemma compiles_a: "\<not> isl (fst (build Normal repo_a))"
  using compile_succeeds[OF orphans_a] by (simp add: build_def)

theorem build_deterministic_witness:
  "ruleFiles repo_b \<noteq> ruleFiles repo_a \<and> \<not> isl (fst (build Normal repo_a)) \<and>
   snd (build Normal repo_a) = repo_a \<and>
   fst (build Normal (snd (build Normal repo_a))) = fst (build Normal repo_a) \<and>
   fst (build Normal repo_b) = fst (build Normal repo_a)"
proof -
  have "mset (ruleFiles repo_b) = mset (ruleFiles repo_a)"
    by (simp add: repo_a_def repo_b_def)
  moreover have "distinct (map fst (ruleFiles repo_a))"
    by (simp add: repo_a_def)
  moreover have "meta repo_b = meta repo_a" "sections repo_b = sections repo_a"
    by (simp_all add: repo_b_def)
  ultimately have "snd (build Normal repo_a) = repo_a \<and>
      fst (build Normal (snd (build Normal repo_a))) = fst (build Normal repo_a) \<and>
      fst (build Normal repo_b) = fst (build Normal repo_a)"
    using build_deterministic[of repo_b repo_a] by simp
  moreover have "ruleFiles repo_b \<noteq> ruleFiles repo_a"
    by (simp add: repo_a_def repo_b_def)
  ultimately show ?thesis
    using compiles_a by simp
qed

lemma upgrade_bumps:
  "\<not> isl (fst (build Upgrade r)) \<Longrightarrow>
   version (meta (snd (build Upgrade r))) = bumpPatch (version (meta r))"
  by (simp add: build_def Let_def)


end
